theory Spec2Isabelle
  imports Main "HOL-Library.Monad_Syntax" "HOL-Library.Signed_Division"
begin

section \<open>BigMaac: a shallow embedding of \<^verbatim>\<open>src/bigmaac.c\<close>\<close>

text \<open>
  The model is sequential: one call runs to completion before the next starts, so the
  process-wide mutex of the source is not represented. Every function of the source is a
  function on an explicit \<open>state\<close>. A result \<open>None\<close> means that the C program has no
  defined behaviour at that point (a read through a null or dangling pointer, an array
  access out of bounds, a division by zero, a \<open>memset\<close> or \<open>memcpy\<close> over addresses of
  the reserved range that no file is mapped at); such a run crashes or corrupts memory.

  \<open>size_t\<close> and addresses are natural numbers below \<open>2 ^ 64\<close>; every arithmetic
  operation of the source on them is reduced modulo \<open>2 ^ 64\<close> in the model. The null
  address is \<open>0\<close>. The \<open>int\<close> heap indices are mathematical integers (the heaps of the
  model stay far below \<open>2 ^ 31\<close> entries).
\<close>

subsection \<open>Machine arithmetic\<close>

definition SIZE_T_RANGE :: nat where
  "SIZE_T_RANGE = 2 ^ 64"

definition add_size_t :: "nat \<Rightarrow> nat \<Rightarrow> nat" where
  "add_size_t a b = (a + b) mod SIZE_T_RANGE"

definition sub_size_t :: "nat \<Rightarrow> nat \<Rightarrow> nat" where
  "sub_size_t a b = (a + (SIZE_T_RANGE - b mod SIZE_T_RANGE)) mod SIZE_T_RANGE"

definition mul_size_t :: "nat \<Rightarrow> nat \<Rightarrow> nat" where
  "mul_size_t a b = (a * b) mod SIZE_T_RANGE"

text \<open>The conversion of an \<open>int\<close> to \<open>size_t\<close> that C applies before comparing the two.\<close>

definition size_t_of_int :: "int \<Rightarrow> nat" where
  "size_t_of_int i = nat (i mod int SIZE_T_RANGE)"

text \<open>
  \<^verbatim>\<open>#define SIZE_TO_MULTIPLE(size, multiple)
    ((size % multiple) > 0 ? size + (multiple - size % multiple) : size)\<close>
  The remainder by zero is undefined.
\<close>

definition SIZE_TO_MULTIPLE :: "nat \<Rightarrow> nat \<Rightarrow> nat option" where
  "SIZE_TO_MULTIPLE sz multiple =
     (if multiple = 0 then None
      else if sz mod multiple > 0 then Some (add_size_t sz (sub_size_t multiple (sz mod multiple)))
      else Some sz)"

subsection \<open>Data\<close>

datatype memory_use = IN_USE | FREE

datatype load_status = LIBRARY_FAIL | NOT_LOADED | LOADING_MEM_FUNCS | LOADING_LIBRARY | LOADED

text \<open>The values of the enumeration, which \<open>calloc\<close> compares with \<open><\<close> and \<open>>\<close>.\<close>

fun load_status_value :: "load_status \<Rightarrow> int" where
  "load_status_value LIBRARY_FAIL = -1"
| "load_status_value NOT_LOADED = 0"
| "load_status_value LOADING_MEM_FUNCS = 1"
| "load_status_value LOADING_LIBRARY = 2"
| "load_status_value LOADED = 3"

text \<open>
  \<^verbatim>\<open>struct heap\<close>. \<open>node_array\<close> is the address of the array of node pointers
  (\<open>0\<close> after a failed \<open>real_realloc\<close>) and \<open>slots\<close> the contents of that array, one
  entry per allocated slot.
\<close>

record heap =
  used :: nat
  length_h :: nat
  node_array :: nat
  slots :: "nat list"

text \<open>
  \<^verbatim>\<open>struct node\<close>. A node pointer is the address of the record on the system heap;
  \<open>None\<close> is the null pointer. \<open>heap_n\<close> is the field \<open>heap\<close>, set only in a list head.
\<close>

record node =
  next_n :: "nat option"
  previous :: "nat option"
  in_use :: memory_use
  heap_idx :: int
  ptr :: nat
  size_n :: nat
  heap_n :: "nat option"

type_synonym nodes = "nat \<Rightarrow> node option"

text \<open>\<open>sizeof\<close> on an LP64 target.\<close>

definition sizeof_node :: nat where
  "sizeof_node = 48"

definition sizeof_heap :: nat where
  "sizeof_heap = 24"

definition sizeof_node_ptr :: nat where
  "sizeof_node_ptr = 8"

subsection \<open>The size-ordered heap\<close>

text \<open>\<open>heap->node_array[i]\<close>: undefined through a null array or out of bounds.\<close>

definition node_at :: "heap \<Rightarrow> int \<Rightarrow> nat option" where
  "node_at h i =
     (if node_array h \<noteq> 0 \<and> 0 \<le> i \<and> i < int (length (slots h))
      then Some (slots h ! nat i) else None)"

text \<open>
  \<^verbatim>\<open>#define LARGER_GAP(h, a, b)
    (((h->node_array[a]->size) > (h->node_array[b]->size)) ? a : b)\<close>
\<close>

definition LARGER_GAP :: "nodes \<Rightarrow> heap \<Rightarrow> int \<Rightarrow> int \<Rightarrow> int option" where
  "LARGER_GAP ns h a b = do {
     ra \<leftarrow> node_at h a;
     na \<leftarrow> ns ra;
     rb \<leftarrow> node_at h b;
     nb \<leftarrow> ns rb;
     Some (if size_n na > size_n nb then a else b)
   }"

text \<open>
  \<^verbatim>\<open>SWAP_NODES(na, idx_a, idx_b)\<close>: the two recorded indices are exchanged first, then
  the two array slots.
\<close>

definition SWAP_NODES :: "nodes \<Rightarrow> heap \<Rightarrow> int \<Rightarrow> int \<Rightarrow> (nodes \<times> heap) option" where
  "SWAP_NODES ns h idx_a idx_b = do {
     ra \<leftarrow> node_at h idx_a;
     na \<leftarrow> ns ra;
     let ns1 = ns(ra \<mapsto> na\<lparr>heap_idx := idx_b\<rparr>);
     rb \<leftarrow> node_at h idx_b;
     nb \<leftarrow> ns1 rb;
     let ns2 = ns1(rb \<mapsto> nb\<lparr>heap_idx := idx_a\<rparr>);
     let arr1 = (slots h)[nat idx_a := rb];
     Some (ns2, h\<lparr>slots := arr1[nat idx_b := ra]\<rparr>)
   }"

text \<open>
  \<open>heapify_up\<close> (lines 245-256). The parent index is \<open>(idx - 1) / 2\<close> with C's
  truncating division.
\<close>

function heapify_up :: "nodes \<Rightarrow> heap \<Rightarrow> int \<Rightarrow> (nodes \<times> heap) option" where
  "heapify_up ns h idx =
     (if idx = 0 then Some (ns, h)
      else
        (case LARGER_GAP ns h idx ((idx - 1) sdiv 2) of
           None \<Rightarrow> None
         | Some larger \<Rightarrow>
             if larger \<noteq> (idx - 1) sdiv 2 then
               (case SWAP_NODES ns h idx ((idx - 1) sdiv 2) of
                  None \<Rightarrow> None
                | Some (ns', h') \<Rightarrow> heapify_up ns' h' ((idx - 1) sdiv 2))
             else Some (ns, h)))"
  by pat_completeness auto
termination
proof (relation "measure (\<lambda>(ns, h, idx). nat idx)")
  show "wf (measure (\<lambda>(ns, h, idx). nat idx))" by simp
next
  fix ns h idx larger x ns' h'
  assume a: "idx \<noteq> 0" "LARGER_GAP ns h idx ((idx - 1) sdiv 2) = Some larger"
  from a(2) have "0 \<le> idx"
    by (simp add: LARGER_GAP_def node_at_def bind_eq_Some_conv split: option.splits if_splits)
  with a(1) have "0 < idx" by simp
  then have "(idx - 1) sdiv 2 = (idx - 1) div 2"
    by (simp add: signed_divide_int_def sgn_if)
  with \<open>0 < idx\<close>
  show "((ns', h', (idx - 1) sdiv 2), ns, h, idx) \<in> measure (\<lambda>(ns, h, idx). nat idx)"
    by simp
qed

declare heapify_up.simps [simp del]

text \<open>
  The first half of \<open>heapify_down\<close> (lines 259-269): the index of the largest block among
  \<open>idx\<close> and its children that lie inside the heap. The comparisons with \<open>heap->used\<close>
  are made in \<open>size_t\<close>.
\<close>

definition largest_idx :: "nodes \<Rightarrow> heap \<Rightarrow> int \<Rightarrow> int option" where
  "largest_idx ns h idx =
     (let left_child_idx = (idx + 1) * 2 - 1;
          right_child_idx = (idx + 1) * 2
      in do {
        l \<leftarrow> (if size_t_of_int left_child_idx < used h
              then LARGER_GAP ns h idx left_child_idx else Some idx);
        (if size_t_of_int right_child_idx < used h
         then LARGER_GAP ns h l right_child_idx else Some l)
      })"

text \<open>\<open>heapify_down\<close> (lines 258-274).\<close>

function heapify_down :: "nodes \<Rightarrow> heap \<Rightarrow> int \<Rightarrow> (nodes \<times> heap) option" where
  "heapify_down ns h idx =
     (case largest_idx ns h idx of
        None \<Rightarrow> None
      | Some largest \<Rightarrow>
          if largest \<noteq> idx then
            (case SWAP_NODES ns h idx largest of
               None \<Rightarrow> None
             | Some (ns', h') \<Rightarrow> heapify_down ns' h' largest)
          else Some (ns, h))"
  by pat_completeness auto
termination
proof (relation "measure (\<lambda>(ns, h, idx). nat (int (length (slots h)) - idx))")
  show "wf (measure (\<lambda>(ns, h, idx). nat (int (length (slots h)) - idx)))" by simp
next
  fix ns h idx largest x ns' h'
  assume a: "largest_idx ns h idx = Some largest" "largest \<noteq> idx"
    "SWAP_NODES ns h idx largest = Some x" "(ns', h') = x"
  from a(3) have arr: "0 \<le> idx" "largest < int (length (slots h))"
    by (auto simp: SWAP_NODES_def node_at_def bind_eq_Some_conv Let_def split: if_splits)
  from a(3,4) have len: "length (slots h') = length (slots h)"
    by (auto simp: SWAP_NODES_def node_at_def bind_eq_Some_conv Let_def split: if_splits)
  have sel: "largest = idx \<or> largest = (idx + 1) * 2 - 1 \<or> largest = (idx + 1) * 2"
    using a(1)
    by (auto simp: largest_idx_def LARGER_GAP_def bind_eq_Some_conv Let_def split: if_splits)
  with a(2) arr(1) have "idx < largest" by auto
  with len arr
  show "((ns', h', largest), ns, h, idx)
          \<in> measure (\<lambda>(ns, h, idx). nat (int (length (slots h)) - idx))"
    by auto
qed

declare heapify_down.simps [simp del]

text \<open>
  \<open>heap_remove_idx\<close> (lines 229-243). \<open>heap->used - 1\<close> is computed in \<open>size_t\<close>.
\<close>

definition heap_remove_idx :: "nodes \<Rightarrow> heap \<Rightarrow> int \<Rightarrow> (nodes \<times> heap) option" where
  "heap_remove_idx ns h idx =
     (if used h = 1 then do {
        r0 \<leftarrow> node_at h 0;
        n0 \<leftarrow> ns r0;
        Some (ns(r0 \<mapsto> n0\<lparr>heap_idx := -1\<rparr>), h\<lparr>used := 0\<rparr>)
      }
      else do {
        ri \<leftarrow> node_at h idx;
        ni \<leftarrow> ns ri;
        let ns1 = ns(ri \<mapsto> ni\<lparr>heap_idx := -1\<rparr>);
        rl \<leftarrow> node_at h (int (sub_size_t (used h) 1));
        nl \<leftarrow> ns1 rl;
        let ns2 = ns1(rl \<mapsto> nl\<lparr>heap_idx := idx\<rparr>);
        let h1 = h\<lparr>slots := (slots h)[nat idx := rl]\<rparr>;
        heapify_down ns2 (h1\<lparr>used := sub_size_t (used h1) 1\<rparr>) idx
      })"

subsection \<open>The process state and its environment\<close>

text \<open>
  What the process does to the outside is recorded in a trace: messages on the standard
  error stream, calls of the real allocator with their results, the memory that is zeroed
  or copied, and the file mappings that are attached to and detached from the reserved
  range.
\<close>

datatype event =
    Stderr string
  | Real_malloc nat nat
  | Real_calloc nat nat nat
  | Real_realloc nat nat nat
  | Real_free nat
  | Memset nat nat
  | Memcpy nat nat nat
  | Reserve nat nat
  | Attach nat nat
  | Detach nat nat

text \<open>The step at which the kernel lets \<open>mmap_tmpfile\<close> fail, if any.\<close>

datatype tmpfile_outcome =
  Mkstemp_fails | Unlink_fails | Ftruncate_fails | Mmap_fails | Close_fails | Tmpfile_ok

text \<open>
  What the environment answers during initialisation: the symbols \<open>dlsym\<close> resolves, the
  page size, the parsed environment variables (\<open>None\<close> when unset or unparsable; for the
  template, the length of the string), the address of the reserved range (\<open>None\<close> for
  \<open>MAP_FAILED\<close>), and the platform's usable-size query.
\<close>

record environment =
  dlsym_malloc :: bool
  dlsym_free :: bool
  dlsym_calloc :: bool
  dlsym_realloc :: bool
  sysconf_page_size :: nat
  getenv_template :: "nat option"
  getenv_min_size_bigmaac :: "nat option"
  getenv_min_size_fry :: "nat option"
  getenv_size_fries :: "nat option"
  getenv_size_bigmaac :: "nat option"
  mmap_reserve :: "nat option"
  MALLOCSIZE :: "nat \<Rightarrow> nat"

text \<open>
  The global variables of the source, the records on the system heap (\<open>nodes\<close>,
  \<open>heaps\<close>), and the environment. \<open>real_supply\<close> lists the addresses the real
  allocator returns to the coming requests (\<open>0\<close> for a refusal; an exhausted supply
  refuses); \<open>tmpfile_script\<close> and \<open>remap_script\<close> list the outcomes of the coming
  file mappings and of the coming \<open>PROT_NONE\<close> remappings (an exhausted script
  succeeds). \<open>mapped\<close> lists the ranges of addresses, each from its first address to
  the address after its last, over which a file is mapped for reading and writing; the
  rest of the reserved range is \<open>PROT_NONE\<close>. The header \<^verbatim>\<open>bigmaac.h\<close> with the
  \<open>DEFAULT_\<close> constants is not part of the sources: the initial values of the
  configuration variables are those of the state the process starts in.
\<close>

record state =
  nodes :: nodes
  heaps :: "nat \<Rightarrow> heap option"
  real_malloc_p :: bool
  real_calloc_p :: bool
  real_free_p :: bool
  real_realloc_p :: bool
  active_mmaps :: int
  head_bigmaacs :: "nat option"
  head_fries :: "nat option"
  min_size_bigmaac :: nat
  min_size_fry :: nat
  base_fries :: nat
  base_bigmaac :: nat
  end_fries :: nat
  end_bigmaac :: nat
  size_fries :: nat
  size_bigmaac :: nat
  template_len :: "nat option"
  fry_size_multiple :: nat
  used_fries :: nat
  used_bigmaacs :: nat
  page_size :: nat
  load_state :: load_status
  errno :: nat
  trace :: "event list"
  env :: environment
  real_supply :: "nat list"
  tmpfile_script :: "tmpfile_outcome list"
  remap_script :: "bool list"
  mapped :: "(nat \<times> nat) list"

definition ENOMEM :: nat where
  "ENOMEM = 12"

definition emit :: "event \<Rightarrow> state \<Rightarrow> state" where
  "emit e st = st\<lparr>trace := trace st @ [e]\<rparr>"

text \<open>
  \<^verbatim>\<open>#define OOM() fprintf(stderr, "BigMaac : Failed to find available space\n");
  errno = ENOMEM;\<close>
\<close>

definition OOM :: "state \<Rightarrow> state" where
  "OOM st = (emit (Stderr ''BigMaac : Failed to find available space'') st)\<lparr>errno := ENOMEM\<rparr>"

definition take_supply :: "state \<Rightarrow> nat \<times> state" where
  "take_supply st =
     (case real_supply st of
        [] \<Rightarrow> (0, st)
      | p # ps \<Rightarrow> (p, st\<lparr>real_supply := ps\<rparr>))"

definition take_tmpfile_outcome :: "state \<Rightarrow> tmpfile_outcome \<times> state" where
  "take_tmpfile_outcome st =
     (case tmpfile_script st of
        [] \<Rightarrow> (Tmpfile_ok, st)
      | x # xs \<Rightarrow> (x, st\<lparr>tmpfile_script := xs\<rparr>))"

definition take_remap_outcome :: "state \<Rightarrow> bool \<times> state" where
  "take_remap_outcome st =
     (case remap_script st of
        [] \<Rightarrow> (True, st)
      | x # xs \<Rightarrow> (x, st\<lparr>remap_script := xs\<rparr>))"

text \<open>
  The real allocator, called through the pointers \<open>dlsym\<close> resolved. A call through a
  pointer that is still null is undefined. \<open>real_free\<close> releases the record at the
  address: a later read of it is a read through a dangling pointer.
\<close>

definition real_malloc :: "state \<Rightarrow> nat \<Rightarrow> (nat \<times> state) option" where
  "real_malloc st sz =
     (if real_malloc_p st
      then (let (p, st1) = take_supply st in Some (p, emit (Real_malloc sz p) st1))
      else None)"

definition real_calloc :: "state \<Rightarrow> nat \<Rightarrow> nat \<Rightarrow> (nat \<times> state) option" where
  "real_calloc st count sz =
     (if real_calloc_p st
      then (let (p, st1) = take_supply st in Some (p, emit (Real_calloc count sz p) st1))
      else None)"

definition real_realloc :: "state \<Rightarrow> nat \<Rightarrow> nat \<Rightarrow> (nat \<times> state) option" where
  "real_realloc st old sz =
     (if real_realloc_p st
      then (let (p, st1) = take_supply st in Some (p, emit (Real_realloc old sz p) st1))
      else None)"

definition real_free :: "state \<Rightarrow> nat \<Rightarrow> state option" where
  "real_free st p =
     (if real_free_p st
      then Some (emit (Real_free p) (st\<lparr>nodes := (nodes st)(p := None)\<rparr>))
      else None)"

text \<open>
  The mappings of the reserved range. \<open>mmap\<close> of a file over \<open>[p, p + sz)\<close> adds the
  range; \<open>mmap\<close> with \<open>PROT_NONE\<close> over \<open>[lo, hi)\<close> takes that part out of every range.
  \<open>covered ms k lo hi\<close> follows at most \<open>k\<close> ranges of \<open>ms\<close>, each from the address
  reached to its end, and tells whether that reaches \<open>hi\<close>; as a range is followed at
  most once, the number of ranges is enough (lemma \<open>accessible_iff\<close>). A \<open>memset\<close> or
  \<open>memcpy\<close> over a byte of the reserved range that is not mapped is a segmentation fault.
  Addresses outside the reserved range belong to the real allocator and its caller, and the
  model takes the blocks there to be as large as the program assumes.
\<close>

definition cut_range :: "nat \<Rightarrow> nat \<Rightarrow> (nat \<times> nat) list \<Rightarrow> (nat \<times> nat) list" where
  "cut_range lo hi ms =
     concat (map (\<lambda>(a, b). filter (\<lambda>(x, y). x < y) [(a, min b lo), (max a hi, b)]) ms)"

fun covered :: "(nat \<times> nat) list \<Rightarrow> nat \<Rightarrow> nat \<Rightarrow> nat \<Rightarrow> bool" where
  "covered ms 0 lo hi = (hi \<le> lo)"
| "covered ms (Suc k) lo hi =
     (hi \<le> lo \<or>
      (case find (\<lambda>(a, b). a \<le> lo \<and> lo < b) ms of
         None \<Rightarrow> False
       | Some (a, b) \<Rightarrow> covered ms k b hi))"

definition accessible :: "state \<Rightarrow> nat \<Rightarrow> nat \<Rightarrow> bool" where
  "accessible st p n = covered (mapped st) (length (mapped st)) p (p + n)"

definition usable :: "state \<Rightarrow> nat \<Rightarrow> nat \<Rightarrow> bool" where
  "usable st p n = (if base_fries st \<le> p \<and> p < end_bigmaac st then accessible st p n else True)"

definition memset :: "state \<Rightarrow> nat \<Rightarrow> nat \<Rightarrow> state option" where
  "memset st p n = (if usable st p n then Some (emit (Memset p n) st) else None)"

definition memcpy :: "state \<Rightarrow> nat \<Rightarrow> nat \<Rightarrow> nat \<Rightarrow> state option" where
  "memcpy st dst src n =
     (if usable st dst n \<and> usable st src n then Some (emit (Memcpy dst src n) st) else None)"

subsection \<open>The address-ordered list and the arena operations\<close>

text \<open>\<open>head->heap\<close>: the address of the heap of a list head, and the heap there.\<close>

definition head_heap :: "state \<Rightarrow> nat option \<Rightarrow> (nat \<times> heap) option" where
  "head_heap st head = do {
     hd \<leftarrow> head;
     hn \<leftarrow> nodes st hd;
     hp \<leftarrow> heap_n hn;
     h \<leftarrow> heaps st hp;
     Some (hp, h)
   }"

text \<open>The test \<^verbatim>\<open>p != NULL && p->in_use == FREE\<close>.\<close>

definition is_FREE :: "nodes \<Rightarrow> nat option \<Rightarrow> bool option" where
  "is_FREE ns p =
     (case p of
        None \<Rightarrow> Some False
      | Some r \<Rightarrow> (case ns r of None \<Rightarrow> None | Some x \<Rightarrow> Some (in_use x = FREE)))"

text \<open>
  \<^verbatim>\<open>#define UNLINK(n) { node* tmp = n; tmp->next->previous = tmp->previous;
  tmp->previous->next = tmp->next; }\<close>
  Neither \<open>tmp->next\<close> nor \<open>tmp->previous\<close> is tested against null.
\<close>

definition UNLINK :: "nodes \<Rightarrow> nat \<Rightarrow> nodes option" where
  "UNLINK ns tmp = do {
     t \<leftarrow> ns tmp;
     nx \<leftarrow> next_n t;
     nxn \<leftarrow> ns nx;
     let ns1 = ns(nx \<mapsto> nxn\<lparr>previous := previous t\<rparr>);
     t1 \<leftarrow> ns1 tmp;
     pv \<leftarrow> previous t1;
     pvn \<leftarrow> ns1 pv;
     Some (ns1(pv \<mapsto> pvn\<lparr>next_n := next_n t1\<rparr>))
   }"

text \<open>
  \<open>heap_insert\<close> (lines 276-294). When the array is full it is reallocated to twice its
  length; the new slots hold no node (address \<open>0\<close>). A refused reallocation leaves the
  null array in the heap (the old contents are lost) and returns \<open>-1\<close>.
\<close>

definition heap_insert :: "state \<Rightarrow> nat option \<Rightarrow> nat \<Rightarrow> (int \<times> state) option" where
  "heap_insert st head n = do {
     (hp, h) \<leftarrow> head_heap st head;
     (st1, h1) \<leftarrow>
       (if used h = length_h h then do {
          (p, st1) \<leftarrow> real_realloc st (node_array h)
                        (mul_size_t (mul_size_t sizeof_node_ptr (length_h h)) 2);
          Some (st1,
            if p = 0 then h\<lparr>node_array := 0, slots := []\<rparr>
            else h\<lparr>node_array := p,
                   slots := take (mul_size_t (length_h h) 2)
                              (slots h @ replicate (mul_size_t (length_h h) 2) 0),
                   length_h := mul_size_t (length_h h) 2\<rparr>)
        }
        else Some (st, h));
     if node_array h1 = 0 \<and> used h = length_h h
     then Some (-1, emit (Stderr ''BigMaac : failed to heap insert'')
                      (st1\<lparr>heaps := (heaps st1)(hp \<mapsto> h1)\<rparr>))
     else do {
       _ \<leftarrow> (if node_array h1 \<noteq> 0 \<and> used h1 < length (slots h1) then Some () else None);
       let h2 = h1\<lparr>slots := (slots h1)[used h1 := n]\<rparr>;
       nn \<leftarrow> nodes st1 n;
       let ns1 = (nodes st1)(n \<mapsto> nn\<lparr>heap_idx := int (used h2)\<rparr>);
       let h3 = h2\<lparr>used := add_size_t (used h2) 1\<rparr>;
       nn1 \<leftarrow> ns1 n;
       (ns2, h4) \<leftarrow> heapify_up ns1 h3 (heap_idx nn1);
       Some (0, st1\<lparr>nodes := ns2, heaps := (heaps st1)(hp \<mapsto> h4)\<rparr>)
     }
   }"

text \<open>\<open>heap_free_node\<close> (lines 296-332).\<close>

definition heap_free_node :: "state \<Rightarrow> nat option \<Rightarrow> nat \<Rightarrow> (int \<times> state) option" where
  "heap_free_node st head n = do {
     n0 \<leftarrow> nodes st n;
     next_free \<leftarrow> is_FREE (nodes st) (next_n n0);
     prev_free \<leftarrow> is_FREE (nodes st) (previous n0);
     if next_free then do {
       st1 \<leftarrow>
         (if prev_free then do {
            pr \<leftarrow> previous n0;
            pn \<leftarrow> nodes st pr;
            let ns1 = (nodes st)(n \<mapsto> n0\<lparr>size_n := add_size_t (size_n n0) (size_n pn)\<rparr>);
            n1 \<leftarrow> ns1 n;
            pr1 \<leftarrow> previous n1;
            pn1 \<leftarrow> ns1 pr1;
            let ns2 = ns1(n \<mapsto> n1\<lparr>ptr := ptr pn1\<rparr>);
            n2 \<leftarrow> ns2 n;
            tmp \<leftarrow> previous n2;
            ns3 \<leftarrow> UNLINK ns2 tmp;
            (hp, h) \<leftarrow> head_heap (st\<lparr>nodes := ns3\<rparr>) head;
            tn \<leftarrow> ns3 tmp;
            (ns4, h1) \<leftarrow> heap_remove_idx ns3 h (heap_idx tn);
            real_free (st\<lparr>nodes := ns4, heaps := (heaps st)(hp \<mapsto> h1)\<rparr>) tmp
          }
          else Some st);
       n3 \<leftarrow> nodes st1 n;
       nx \<leftarrow> next_n n3;
       nxn \<leftarrow> nodes st1 nx;
       let ns5 = (nodes st1)(nx \<mapsto> nxn\<lparr>size_n := add_size_t (size_n nxn) (size_n n3)\<rparr>);
       n4 \<leftarrow> ns5 n;
       nx4 \<leftarrow> next_n n4;
       nxn4 \<leftarrow> ns5 nx4;
       let ns6 = ns5(nx4 \<mapsto> nxn4\<lparr>ptr := ptr n4\<rparr>);
       ns7 \<leftarrow> UNLINK ns6 n;
       (hp, h) \<leftarrow> head_heap (st1\<lparr>nodes := ns7\<rparr>) head;
       n5 \<leftarrow> ns7 n;
       nx5 \<leftarrow> next_n n5;
       nxn5 \<leftarrow> ns7 nx5;
       (ns8, h2) \<leftarrow> heapify_up ns7 h (heap_idx nxn5);
       st2 \<leftarrow> real_free (st1\<lparr>nodes := ns8, heaps := (heaps st1)(hp \<mapsto> h2)\<rparr>) n;
       Some (0, st2)
     }
     else if prev_free then do {
       pr \<leftarrow> previous n0;
       pn \<leftarrow> nodes st pr;
       let ns1 = (nodes st)(pr \<mapsto> pn\<lparr>size_n := add_size_t (size_n pn) (size_n n0)\<rparr>);
       ns2 \<leftarrow> UNLINK ns1 n;
       (hp, h) \<leftarrow> head_heap (st\<lparr>nodes := ns2\<rparr>) head;
       n1 \<leftarrow> ns2 n;
       pr1 \<leftarrow> previous n1;
       pn1 \<leftarrow> ns2 pr1;
       (ns3, h1) \<leftarrow> heapify_up ns2 h (heap_idx pn1);
       st1 \<leftarrow> real_free (st\<lparr>nodes := ns3, heaps := (heaps st)(hp \<mapsto> h1)\<rparr>) n;
       Some (0, st1)
     }
     else heap_insert (st\<lparr>nodes := (nodes st)(n \<mapsto> n0\<lparr>in_use := FREE\<rparr>)\<rparr>) head n
   }"

text \<open>
  The choice of the free block in \<open>heap_pop_split\<close> (lines 336-357): \<open>Some None\<close> when
  the function returns \<open>NULL\<close> because the heap is empty or its root is too small,
  otherwise the block \<open>free_node\<close> points to after the two tests on the children.
\<close>

definition choose_free_node :: "nodes \<Rightarrow> heap \<Rightarrow> nat \<Rightarrow> nat option option" where
  "choose_free_node ns h sz =
     (if used h = 0 then Some None
      else do {
        r0 \<leftarrow> node_at h 0;
        n0 \<leftarrow> ns r0;
        if size_n n0 < sz then Some None
        else do {
          f1 \<leftarrow> (if used h > 1 then do {
                   r1 \<leftarrow> node_at h 1;
                   n1 \<leftarrow> ns r1;
                   Some (if size_n n1 \<ge> sz then r1 else r0)
                 } else Some r0);
          f2 \<leftarrow> (if used h > 2 then do {
                   r2 \<leftarrow> node_at h 2;
                   n2 \<leftarrow> ns r2;
                   fn \<leftarrow> ns f1;
                   Some (if size_n n2 \<ge> sz \<and> size_n n2 < size_n fn then r2 else f1)
                 } else Some f1);
          Some (Some f2)
        }
      })"

text \<open>
  \<open>heap_pop_split\<close> (lines 334-384); \<open>verify_memory\<close> is empty unless \<open>DEBUG\<close> is
  defined. The result is the node returned (\<open>None\<close> for \<open>NULL\<close>) and the new state.
\<close>

definition heap_pop_split :: "state \<Rightarrow> nat option \<Rightarrow> nat \<Rightarrow> (nat option \<times> state) option" where
  "heap_pop_split st head sz = do {
     (hp, h) \<leftarrow> head_heap st head;
     chosen \<leftarrow> choose_free_node (nodes st) h sz;
     case chosen of
       None \<Rightarrow> Some (None, st)
     | Some free_node \<Rightarrow> do {
         fn \<leftarrow> nodes st free_node;
         if size_n fn = sz then do {
           (ns1, h1) \<leftarrow> heap_remove_idx (nodes st) h (heap_idx fn);
           fn1 \<leftarrow> ns1 free_node;
           Some (Some free_node,
                 st\<lparr>nodes := ns1(free_node \<mapsto> fn1\<lparr>in_use := IN_USE\<rparr>),
                    heaps := (heaps st)(hp \<mapsto> h1)\<rparr>)
         }
         else do {
           (used_node, st1) \<leftarrow> real_malloc st sizeof_node;
           if used_node = 0 then Some (None, st1)
           else do {
             f0 \<leftarrow> nodes st1 free_node;
             let ns1 = (nodes st1)(used_node \<mapsto>
                          \<lparr>next_n = Some free_node, previous = previous f0, in_use = IN_USE,
                           heap_idx = -1, ptr = ptr f0, size_n = sz, heap_n = None\<rparr>);
             f1 \<leftarrow> ns1 free_node;
             let ns2 = ns1(free_node \<mapsto> f1\<lparr>size_n := sub_size_t (size_n f1) sz\<rparr>);
             f2 \<leftarrow> ns2 free_node;
             let ns3 = ns2(free_node \<mapsto> f2\<lparr>ptr := add_size_t (ptr f2) sz\<rparr>);
             f3 \<leftarrow> ns3 free_node;
             pv \<leftarrow> previous f3;
             pvn \<leftarrow> ns3 pv;
             let ns4 = ns3(pv \<mapsto> pvn\<lparr>next_n := Some used_node\<rparr>);
             f4 \<leftarrow> ns4 free_node;
             let ns5 = ns4(free_node \<mapsto> f4\<lparr>previous := Some used_node\<rparr>);
             f5 \<leftarrow> ns5 free_node;
             (ns6, h1) \<leftarrow> heapify_down ns5 h (heap_idx f5);
             Some (Some used_node, st1\<lparr>nodes := ns6, heaps := (heaps st1)(hp \<mapsto> h1)\<rparr>)
           }
         }
       }
   }"

text \<open>
  The loop of \<open>heap_find_node\<close> (lines 389-395): the first node from \<open>head\<close> on whose
  \<open>ptr\<close> is the address looked for. It returns neither a node nor \<open>NULL\<close> when it
  runs into a dangling pointer or round a cycle.
\<close>

partial_function (option) find_node_from :: "nodes \<Rightarrow> nat option \<Rightarrow> nat \<Rightarrow> nat option option" where
  "find_node_from ns head p =
     (case head of
        None \<Rightarrow> Some None
      | Some r \<Rightarrow>
          (case ns r of
             None \<Rightarrow> None
           | Some x \<Rightarrow> if ptr x = p then Some (Some r) else find_node_from ns (next_n x) p))"

definition heap_find_node :: "state \<Rightarrow> nat \<Rightarrow> nat option option" where
  "heap_find_node st p =
     find_node_from (nodes st) (if p < base_bigmaac st then head_fries st else head_bigmaacs st) p"

text \<open>
  \<open>ll_new\<close> (lines 400-425). The two nodes of a new list are one allocation: the second
  node lies \<open>sizeof(node)\<close> after the head.
\<close>

definition ll_new :: "state \<Rightarrow> nat \<Rightarrow> nat \<Rightarrow> (nat option \<times> state) option" where
  "ll_new st p sz = do {
     (hd, st1) \<leftarrow> real_malloc st (mul_size_t sizeof_node 2);
     if hd = 0 then Some (None, emit (Stderr ''BigMalloc heap: failed to make list'') st1)
     else do {
       let ns1 = (nodes st1)(hd \<mapsto>
                    \<lparr>next_n = Some (hd + sizeof_node), previous = None, in_use = IN_USE,
                     heap_idx = -1, ptr = 0, size_n = 0, heap_n = None\<rparr>);
       let ns2 = ns1(hd + sizeof_node \<mapsto>
                    \<lparr>next_n = None, previous = Some hd, in_use = FREE,
                     heap_idx = 0, ptr = p, size_n = sz, heap_n = None\<rparr>);
       (hp, st2) \<leftarrow> real_malloc (st1\<lparr>nodes := ns2\<rparr>) sizeof_heap;
       hn \<leftarrow> nodes st2 hd;
       if hp = 0 then Some (None, emit (Stderr ''BigMalloc heap failed'') st2)
       else do {
         let st3 = st2\<lparr>nodes := (nodes st2)(hd \<mapsto> hn\<lparr>heap_n := Some hp\<rparr>)\<rparr>;
         (arr, st4) \<leftarrow> real_malloc st3 (mul_size_t sizeof_node_ptr 1);
         if arr = 0 then Some (None, emit (Stderr ''BigMalloc heap failed 2'') st4)
         else Some (Some hd,
                st4\<lparr>heaps := (heaps st4)(hp \<mapsto>
                   \<lparr>used = 1, length_h = 1, node_array = arr, slots = [hd + sizeof_node]\<rparr>)\<rparr>)
       }
     }
   }"

subsection \<open>The backing store\<close>

text \<open>
  \<open>mmap_tmpfile\<close> (lines 522-565). The file name is allocated with the real allocator;
  the kernel's part is the next outcome of the script. The result is the \<open>int\<close> returned.
\<close>

definition mmap_tmpfile :: "state \<Rightarrow> nat \<Rightarrow> nat \<Rightarrow> (int \<times> state) option" where
  "mmap_tmpfile st p sz = do {
     len \<leftarrow> template_len st;
     (filename, st1) \<leftarrow> real_malloc st (add_size_t len 1);
     if filename = 0
     then Some (-1, emit (Stderr ''Bigmaac: failed to allocate memory in mmap_tmpfile'') st1)
     else do {
       let (outcome, st2) = take_tmpfile_outcome (emit (Stderr ''BIGMAAC: make file'') st1);
       case outcome of
         Mkstemp_fails \<Rightarrow> do {
           st3 \<leftarrow> real_free (emit (Stderr ''Bigmaac: Failed to make temp file'') st2) filename;
           Some (-1, st3)
         }
       | Unlink_fails \<Rightarrow> do {
           st3 \<leftarrow> real_free (emit (Stderr ''BigMaac: unlink tmpfile failed!'') st2) filename;
           Some (-1, st3)
         }
       | Ftruncate_fails \<Rightarrow> do {
           st3 \<leftarrow> real_free st2 filename;
           Some (-1, emit (Stderr ''BigMaac: ftruncate failed!'') st3)
         }
       | Mmap_fails \<Rightarrow> do {
           st3 \<leftarrow> real_free st2 filename;
           Some (-1, emit (Stderr ''BigMaac: mmap failed!'') st3)
         }
       | Close_fails \<Rightarrow> do {
           st3 \<leftarrow> real_free st2 filename;
           let st4 = (emit (Attach p sz) st3)
                       \<lparr>active_mmaps := active_mmaps st3 + 1,
                        mapped := (p, p + sz) # mapped st3\<rparr>;
           Some (-1, emit (Stderr ''BigMaac: close fd failed!'') st4)
         }
       | Tmpfile_ok \<Rightarrow> do {
           st3 \<leftarrow> real_free st2 filename;
           Some (0, (emit (Attach p sz) st3)
                      \<lparr>active_mmaps := active_mmaps st3 + 1,
                       mapped := (p, p + sz) # mapped st3\<rparr>)
         }
     }
   }"

subsection \<open>Initialisation\<close>

text \<open>
  \<open>bigmaac_init\<close> (lines 429-518). \<open>strdup\<close> of the template allocates through the
  interposed \<open>malloc\<close>, which passes the request on while the library is loading; a
  refused copy leaves the null template. \<open>MAP_FAILED\<close> is the last address.
\<close>

definition bigmaac_init :: "state \<Rightarrow> state option" where
  "bigmaac_init st =
     (if load_state st = LIBRARY_FAIL then Some st
      else if load_state st \<noteq> NOT_LOADED then Some (emit (Stderr ''Already init'') st)
      else do {
        let e = env st;
        let st1 = (emit (Stderr ''Loading Bigmaac Heap X!'') st)\<lparr>load_state := LOADING_MEM_FUNCS\<rparr>;
        let st2 = st1\<lparr>real_malloc_p := dlsym_malloc e, real_free_p := dlsym_free e,
                      real_calloc_p := dlsym_calloc e, real_realloc_p := dlsym_realloc e\<rparr>;
        let st3 = (if \<not> real_malloc_p st2 \<or> \<not> real_free_p st2 \<or> \<not> real_calloc_p st2
                      \<or> \<not> real_realloc_p st2
                   then emit (Stderr ''Error in dlsym'') st2 else st2);
        let st4 = st3\<lparr>load_state := LOADING_LIBRARY, page_size := sysconf_page_size e\<rparr>;
        st5 \<leftarrow> (case getenv_template e of
                  None \<Rightarrow> Some st4
                | Some len \<Rightarrow> do {
                    (p, s) \<leftarrow> real_malloc st4 (add_size_t len 1);
                    Some (s\<lparr>template_len := (if p = 0 then None else Some len)\<rparr>)
                  });
        let st6 = (case getenv_min_size_bigmaac e of
                     None \<Rightarrow> st5 | Some v \<Rightarrow> st5\<lparr>min_size_bigmaac := v\<rparr>);
        let st7 = (case getenv_min_size_fry e of
                     None \<Rightarrow> st6 | Some v \<Rightarrow> st6\<lparr>min_size_fry := v\<rparr>);
        let st8 = (if min_size_fry st7 = 0
                   then st7\<lparr>min_size_fry := min_size_bigmaac st7\<rparr> else st7);
        if min_size_fry st8 > min_size_bigmaac st8
        then Some ((emit (Stderr ''BigMaac: Failed to initialize library, fries must be smaller than bigmaac'') st8)
                     \<lparr>load_state := LIBRARY_FAIL\<rparr>)
        else do {
          let st9 = (case getenv_size_fries e of
                       None \<Rightarrow> st8 | Some v \<Rightarrow> st8\<lparr>size_fries := v\<rparr>);
          let st10 = (case getenv_size_bigmaac e of
                        None \<Rightarrow> st9 | Some v \<Rightarrow> st9\<lparr>size_bigmaac := v\<rparr>);
          let size_total = add_size_t (size_fries st10) (size_bigmaac st10);
          case mmap_reserve e of
            None \<Rightarrow>
              Some ((emit (Stderr ''BigMaac: Failed to initialize library'') st10)
                      \<lparr>base_fries := SIZE_T_RANGE - 1, load_state := LIBRARY_FAIL\<rparr>)
          | Some b \<Rightarrow> do {
              let st11 = (emit (Reserve b size_total) st10)
                           \<lparr>base_fries := b, active_mmaps := active_mmaps st10 + 1\<rparr>;
              (ret, st12) \<leftarrow> mmap_tmpfile st11 (base_fries st11) (size_fries st11);
              if ret < 0
              then Some ((emit (Stderr ''BigMaac: Failed to initialize library'') st12)
                           \<lparr>load_state := LIBRARY_FAIL\<rparr>)
              else do {
                let st13 = st12\<lparr>end_fries := add_size_t (base_fries st12) (size_fries st12)\<rparr>;
                let st14 = st13\<lparr>base_bigmaac := end_fries st13,
                                end_bigmaac := add_size_t (base_fries st13) size_total\<rparr>;
                (hb, st15) \<leftarrow> ll_new st14 (base_bigmaac st14) (size_bigmaac st14);
                (hf, st16) \<leftarrow> ll_new (st15\<lparr>head_bigmaacs := hb\<rparr>) (base_fries st15) (size_fries st15);
                Some (st16\<lparr>head_fries := hf, load_state := LOADED\<rparr>)
              }
            }
        }
      })"

subsection \<open>Chunks\<close>

text \<open>\<open>create_chunk\<close> (lines 567-594). The result is the address returned.\<close>

definition create_chunk :: "state \<Rightarrow> nat \<Rightarrow> (nat \<times> state) option" where
  "create_chunk st sz0 = do {
     let head = (if sz0 > min_size_bigmaac st then head_bigmaacs st else head_fries st);
     (sz, st1) \<leftarrow>
       (if head = head_bigmaacs st then do {
          s \<leftarrow> SIZE_TO_MULTIPLE sz0 (page_size st);
          Some (s, st\<lparr>used_bigmaacs := add_size_t (used_bigmaacs st) s\<rparr>)
        }
        else do {
          s \<leftarrow> SIZE_TO_MULTIPLE sz0 (fry_size_multiple st);
          Some (s, st\<lparr>used_fries := add_size_t (used_fries st) s\<rparr>)
        });
     (heap_chunk, st2) \<leftarrow> heap_pop_split st1 head sz;
     case heap_chunk of
       None \<Rightarrow> Some (0, st2)
     | Some c \<Rightarrow>
         if head = head_bigmaacs st2 then do {
           cn \<leftarrow> nodes st2 c;
           (ret, st3) \<leftarrow> mmap_tmpfile st2 (ptr cn) sz;
           if ret < 0 then Some (0, st3)
           else do {
             cn1 \<leftarrow> nodes st3 c;
             Some (ptr cn1, st3)
           }
         }
         else do {
           cn \<leftarrow> nodes st2 c;
           Some (ptr cn, st2)
         }
   }"

text \<open>\<open>memblock_copy\<close> (lines 596-605): the \<open>memcpy\<close> of the shorter of the two sizes.\<close>

definition memblock_copy :: "state \<Rightarrow> nat \<Rightarrow> nat \<Rightarrow> nat \<Rightarrow> nat \<Rightarrow> state option" where
  "memblock_copy st old_ptr new_ptr old_size new_size =
     memcpy st new_ptr old_ptr (if old_size < new_size then old_size else new_size)"

text \<open>\<open>remove_chunk_with_ptr\<close> (lines 607-645). The result is the \<open>int\<close> returned.\<close>

definition remove_chunk_with_ptr :: "state \<Rightarrow> nat \<Rightarrow> nat \<Rightarrow> nat \<Rightarrow> (int \<times> state) option" where
  "remove_chunk_with_ptr st p new_ptr new_size = do {
     found \<leftarrow> heap_find_node st p;
     case found of
       None \<Rightarrow> Some (0, emit (Stderr ''BigMaac: Cannot find node in BigMaac'') st)
     | Some n \<Rightarrow> do {
         n0 \<leftarrow> nodes st n;
         st1 \<leftarrow> (if new_ptr \<noteq> 0
                 then memblock_copy st (ptr n0) new_ptr (size_n n0) new_size else Some st);
         let head = (if p < base_bigmaac st1 then head_fries st1 else head_bigmaacs st1);
         let (remapped, st2) =
               (if head = head_bigmaacs st1 then take_remap_outcome st1 else (True, st1));
         if \<not> remapped
         then Some (0, emit (Stderr ''BigMaac: wrong with munmap()!'') st2)
         else do {
           let st3 =
             (if head = head_bigmaacs st1
              then (emit (Detach (ptr n0) (size_n n0)) st2)
                     \<lparr>active_mmaps := active_mmaps st2 - 1,
                      used_bigmaacs := sub_size_t (used_bigmaacs st2) (size_n n0),
                      mapped := cut_range (ptr n0) (ptr n0 + size_n n0) (mapped st2)\<rparr>
              else st2\<lparr>used_fries := sub_size_t (used_fries st2) (size_n n0)\<rparr>);
           (r, st4) \<leftarrow> heap_free_node st3 head n;
           Some (if r < 0 then r else 1, st4)
         }
       }
   }"

subsection \<open>The interposed C library functions\<close>

text \<open>
  Each shim returns the address it hands to the caller and the new state. The call of
  \<open>bigmaac_init\<close> that opens \<open>malloc\<close>, \<open>realloc\<close> and \<open>free\<close> is the same.
\<close>

definition init_if_not_loaded :: "state \<Rightarrow> state option" where
  "init_if_not_loaded st =
     (if load_state st = NOT_LOADED \<and> \<not> real_malloc_p st then bigmaac_init st else Some st)"

text \<open>\<open>malloc\<close> (lines 649-668).\<close>

definition malloc :: "state \<Rightarrow> nat \<Rightarrow> (nat \<times> state) option" where
  "malloc st0 sz = do {
     st \<leftarrow> init_if_not_loaded st0;
     if load_state st \<noteq> LOADED \<or> sz = 0 then real_malloc st sz
     else if sz > min_size_fry st then do {
       (p, st1) \<leftarrow> create_chunk st sz;
       if p = 0 then Some (0, OOM st1) else Some (p, st1)
     }
     else real_malloc st sz
   }"

text \<open>\<open>calloc\<close> (lines 670-697).\<close>

definition calloc :: "state \<Rightarrow> nat \<Rightarrow> nat \<Rightarrow> (nat \<times> state) option" where
  "calloc st0 count sz =
     (if load_status_value (load_state st0) > load_status_value NOT_LOADED
         \<and> load_status_value (load_state st0) < load_status_value LOADED
      then Some (0, st0)
      else do {
        st \<leftarrow> (if load_state st0 = NOT_LOADED \<or> \<not> real_malloc_p st0
               then bigmaac_init st0 else Some st0);
        if load_state st \<noteq> LOADED \<or> count = 0 \<or> sz = 0 then real_calloc st count sz
        else if sz > min_size_fry st then do {
          (p, st1) \<leftarrow> create_chunk st sz;
          if p = 0 then Some (0, OOM st1)
          else if sz \<le> min_size_bigmaac st1
          then do {
            st2 \<leftarrow> memset st1 p (mul_size_t count sz);
            Some (p, st2)
          }
          else Some (p, st1)
        }
        else real_calloc st count sz
      })"

text \<open>\<open>realloc\<close> (lines 701-775).\<close>

definition realloc :: "state \<Rightarrow> nat \<Rightarrow> nat \<Rightarrow> (nat \<times> state) option" where
  "realloc st0 p sz = do {
     st \<leftarrow> init_if_not_loaded st0;
     if load_state st \<noteq> LOADED then real_realloc st p sz
     else if p = 0 \<or> sz = 0 then malloc st sz
     else if p \<ge> base_fries st \<and> p < end_bigmaac st then do {
       found \<leftarrow> heap_find_node st p;
       case found of
         None \<Rightarrow> Some (0, emit (Stderr ''BigMaac: Cannot find node in BigMaac'') st)
       | Some n \<Rightarrow> do {
           n0 \<leftarrow> nodes st n;
           if size_n n0 \<ge> sz then Some (p, st)
           else do {
             (q, st1) \<leftarrow>
               (if sz > min_size_fry st then do {
                  (q, st1) \<leftarrow> create_chunk st sz;
                  Some (q, if q = 0 then OOM st1 else st1)
                }
                else real_malloc st sz);
             if q = 0 then Some (0, st1)
             else do {
               (r, st2) \<leftarrow> remove_chunk_with_ptr st1 p q sz;
               if r < 0 then Some (0, OOM st2)
               else if r = 0
               then Some (0, emit (Stderr ''BigMaac: is missing memory address it should have'') st2)
               else Some (q, st2)
             }
           }
         }
     }
     else if sz > min_size_fry st then do {
       let old_size = MALLOCSIZE (env st) p;
       (q, st1) \<leftarrow> create_chunk st sz;
       if q \<noteq> 0 then do {
         st2 \<leftarrow> memblock_copy st1 p q old_size sz;
         st3 \<leftarrow> real_free st2 p;
         Some (q, st3)
       }
       else Some (0, OOM st1)
     }
     else real_realloc st p sz
   }"

text \<open>\<open>reallocarray\<close> (line 699): the product is not checked for overflow.\<close>

definition reallocarray :: "state \<Rightarrow> nat \<Rightarrow> nat \<Rightarrow> nat \<Rightarrow> (nat \<times> state) option" where
  "reallocarray st p sz count = realloc st p (mul_size_t sz count)"

text \<open>\<open>free\<close> (lines 777-793).\<close>

definition free :: "state \<Rightarrow> nat \<Rightarrow> state option" where
  "free st0 p = do {
     st \<leftarrow> init_if_not_loaded st0;
     if load_state st \<noteq> LOADED \<or> p < base_fries st \<or> p \<ge> end_bigmaac st then real_free st p
     else do {
       (chunks_removed, st1) \<leftarrow> remove_chunk_with_ptr st p 0 0;
       if chunks_removed = 0
       then Some (emit (Stderr ''BigMaac: Free was called on pointer that was not alloc'd'') st1)
       else Some st1
     }
   }"

section \<open>Notions of the specification and example processes\<close>

text \<open>
  \<open>rounded_up sz m r\<close>: \<open>r\<close> is \<open>sz\<close> rounded up to a multiple of \<open>m\<close>, that is the
  least multiple of \<open>m\<close> that is not below \<open>sz\<close>.
\<close>

definition rounded_up :: "nat \<Rightarrow> nat \<Rightarrow> nat \<Rightarrow> bool" where
  "rounded_up sz m r = (m dvd r \<and> sz \<le> r \<and> r < sz + m)"

text \<open>
  The library is fully loaded: initialisation has ended in \<open>LOADED\<close> with the two
  thresholds in order, two different arenas, and a page size and a fry grain that are
  positive values of \<open>size_t\<close>.
\<close>

definition fully_loaded :: "state \<Rightarrow> bool" where
  "fully_loaded st =
     (load_state st = LOADED \<and> min_size_fry st \<le> min_size_bigmaac st
      \<and> head_fries st \<noteq> head_bigmaacs st
      \<and> 0 < page_size st \<and> page_size st < SIZE_T_RANGE
      \<and> 0 < fry_size_multiple st \<and> fry_size_multiple st < SIZE_T_RANGE)"

text \<open>
  The two services of the allocation policy, for a request whose size \<open>r\<close> is already
  rounded. A fry is carved from the fry arena and counted in \<open>used_fries\<close>; nothing is
  mapped. A bigmaac is carved from the bigmaac arena and counted in \<open>used_bigmaacs\<close>,
  and a file is mapped over the carved range. The address \<open>0\<close> reports a failure.
\<close>

definition fry_chunk :: "state \<Rightarrow> nat \<Rightarrow> (nat \<times> state) option" where
  "fry_chunk st r =
     (case heap_pop_split (st\<lparr>used_fries := add_size_t (used_fries st) r\<rparr>) (head_fries st) r of
        None \<Rightarrow> None
      | Some (None, st1) \<Rightarrow> Some (0, st1)
      | Some (Some c, st1) \<Rightarrow>
          (case nodes st1 c of None \<Rightarrow> None | Some cn \<Rightarrow> Some (ptr cn, st1)))"

definition bigmaac_chunk :: "state \<Rightarrow> nat \<Rightarrow> (nat \<times> state) option" where
  "bigmaac_chunk st r =
     (case heap_pop_split (st\<lparr>used_bigmaacs := add_size_t (used_bigmaacs st) r\<rparr>)
             (head_bigmaacs st) r of
        None \<Rightarrow> None
      | Some (None, st1) \<Rightarrow> Some (0, st1)
      | Some (Some c, st1) \<Rightarrow>
          (case nodes st1 c of
             None \<Rightarrow> None
           | Some cn \<Rightarrow>
               (case mmap_tmpfile st1 (ptr cn) r of
                  None \<Rightarrow> None
                | Some (ret, st2) \<Rightarrow>
                    if ret < 0 then Some (0, st2)
                    else (case nodes st2 c of
                            None \<Rightarrow> None
                          | Some cn1 \<Rightarrow> Some (ptr cn1, st2)))))"

text \<open>
  The occupied slots of a heap are valid: the array is there, it has room for the
  \<open>used\<close> slots, and each of them points to a live node.
\<close>

definition heap_slots_valid :: "nodes \<Rightarrow> heap \<Rightarrow> bool" where
  "heap_slots_valid ns h =
     (node_array h \<noteq> 0 \<and> used h \<le> length (slots h)
      \<and> list_all (\<lambda>r. ns r \<noteq> None) (take (used h) (slots h)))"

text \<open>The size of the block in slot \<open>i\<close> of the heap; \<open>None\<close> outside the heap.\<close>

definition slot_size :: "nodes \<Rightarrow> heap \<Rightarrow> nat \<Rightarrow> nat option" where
  "slot_size ns h i =
     (if i < used h
      then (case node_at h (int i) of None \<Rightarrow> None | Some r \<Rightarrow> map_option size_n (ns r))
      else None)"

text \<open>A block (if there is one) fits a request; one block is strictly smaller than another.\<close>

definition fits :: "nat \<Rightarrow> nat option \<Rightarrow> bool" where
  "fits sz s = (case s of None \<Rightarrow> False | Some x \<Rightarrow> sz \<le> x)"

definition smaller :: "nat option \<Rightarrow> nat option \<Rightarrow> bool" where
  "smaller s t = (case (s, t) of (Some x, Some y) \<Rightarrow> x < y | _ \<Rightarrow> False)"

text \<open>
  The slot the fragmentation heuristic prefers, from the sizes of the root and of its two
  children: none when the root does not fit; the left child when it fits, unless the right
  child fits too and is strictly smaller; with a left child that does not fit, the right
  child when it fits and is strictly smaller than the root; the root otherwise.
\<close>

definition preferred_slot :: "nat \<Rightarrow> nat option \<Rightarrow> nat option \<Rightarrow> nat option \<Rightarrow> nat option" where
  "preferred_slot sz root left right =
     (if \<not> fits sz root then None
      else if fits sz left then (if fits sz right \<and> smaller right left then Some 2 else Some 1)
      else if fits sz right \<and> smaller right root then Some 2
      else Some 0)"

text \<open>The block record \<open>heap_find_node\<close> finds for an address.\<close>

definition block_at :: "state \<Rightarrow> nat \<Rightarrow> node option" where
  "block_at st p = (case heap_find_node st p of Some (Some n) \<Rightarrow> nodes st n | _ \<Rightarrow> None)"

text \<open>
  What the arena operations rely on. A free block of a heap is well placed: it is no
  list head, its address is a non-null address of the managed range and the one under
  which \<open>heap_find_node\<close> finds it, and it has a predecessor, which is the only node
  whose \<open>next\<close> is this block.
\<close>

definition free_block_ok :: "state \<Rightarrow> nat \<Rightarrow> bool" where
  "free_block_ok st r =
     (Some r \<noteq> head_fries st \<and> Some r \<noteq> head_bigmaacs st \<and>
      (case nodes st r of
         None \<Rightarrow> False
       | Some f \<Rightarrow>
           ptr f \<noteq> 0 \<and> base_fries st \<le> ptr f \<and> ptr f < end_bigmaac st
           \<and> heap_find_node st (ptr f) = Some (Some r)
           \<and> (case previous f of
                 None \<Rightarrow> False
               | Some pv \<Rightarrow>
                   pv \<noteq> r
                   \<and> (case nodes st pv of None \<Rightarrow> False | Some x \<Rightarrow> next_n x = Some r)
                   \<and> (\<forall>q y. nodes st q = Some y \<and> next_n y = Some r \<longrightarrow> q = pv))))"

text \<open>The list of a head has a heap, and every block in an occupied slot is well placed.\<close>

definition arena_ok :: "state \<Rightarrow> nat option \<Rightarrow> bool" where
  "arena_ok st head =
     (case head_heap st head of
        None \<Rightarrow> False
      | Some (hp, h) \<Rightarrow> list_all (free_block_ok st) (take (used h) (slots h)))"

text \<open>
  The real allocator hands out fresh addresses: no address twice, and none at which a
  node lives.
\<close>

definition supply_fresh :: "state \<Rightarrow> bool" where
  "supply_fresh st =
     (distinct (real_supply st) \<and> list_all (\<lambda>a. nodes st a = None) (real_supply st))"

text \<open>
  Two stores hold the same blocks when they differ in the recorded heap indices only;
  they are walked alike at a node whose address and successor are the same in both.
\<close>

definition unindexed :: "node \<Rightarrow> node" where
  "unindexed x = x\<lparr>heap_idx := 0\<rparr>"

definition same_blocks :: "nodes \<Rightarrow> nodes \<Rightarrow> bool" where
  "same_blocks ns ns' = (\<forall>r. map_option unindexed (ns' r) = map_option unindexed (ns r))"

definition same_walk :: "nodes \<Rightarrow> nodes \<Rightarrow> nat \<Rightarrow> bool" where
  "same_walk ns ns' r =
     (map_option (\<lambda>x. (ptr x, next_n x)) (ns' r) = map_option (\<lambda>x. (ptr x, next_n x)) (ns r))"

text \<open>
  What no allocation changes: the load state, the resolved functions, the ranges and the
  two list heads.
\<close>

definition same_layout :: "state \<Rightarrow> state \<Rightarrow> bool" where
  "same_layout st st' =
     (load_state st' = load_state st \<and> real_malloc_p st' = real_malloc_p st
      \<and> real_free_p st' = real_free_p st \<and> template_len st' = template_len st
      \<and> base_fries st' = base_fries st \<and> base_bigmaac st' = base_bigmaac st
      \<and> end_bigmaac st' = end_bigmaac st
      \<and> head_fries st' = head_fries st \<and> head_bigmaacs st' = head_bigmaacs st)"

text \<open>
  \<open>carved st st' c sz\<close>: in \<open>st'\<close> the node \<open>c\<close> is a block of \<open>sz\<close> bytes at an
  address of the managed range, found under that address by \<open>heap_find_node\<close>; the
  layout is that of \<open>st\<close>, and the addresses of the real allocator are still fresh.
\<close>

definition carved :: "state \<Rightarrow> state \<Rightarrow> nat \<Rightarrow> nat \<Rightarrow> bool" where
  "carved st st' c sz =
     (same_layout st st'
      \<and> supply_fresh st'
      \<and> (\<exists>blk. nodes st' c = Some blk \<and> size_n blk = sz
            \<and> base_fries st \<le> ptr blk \<and> ptr blk < end_bigmaac st
            \<and> heap_find_node st' (ptr blk) = Some (Some c)))"

text \<open>
  An example process before its first allocation. The environment sets the thresholds to
  4096 and 65536 bytes and the arena sizes to \<open>sf\<close> and \<open>sb\<close> bytes; pages have 4096
  bytes, the fry grain is 32 bytes, the range is reserved at address \<open>2 ^ 30\<close>, and the
  real allocator hands out the addresses 1000, 2000, ...
\<close>

definition example_env :: "nat \<Rightarrow> nat \<Rightarrow> environment" where
  "example_env sf sb =
     \<lparr>dlsym_malloc = True, dlsym_free = True, dlsym_calloc = True, dlsym_realloc = True,
      sysconf_page_size = 4096, getenv_template = None,
      getenv_min_size_bigmaac = Some 65536, getenv_min_size_fry = Some 4096,
      getenv_size_fries = Some sf, getenv_size_bigmaac = Some sb,
      mmap_reserve = Some 1073741824, MALLOCSIZE = (\<lambda>p. 0)\<rparr>"

definition process_start :: "nat \<Rightarrow> nat \<Rightarrow> state" where
  "process_start sf sb =
     \<lparr>nodes = (\<lambda>r. None), heaps = (\<lambda>r. None),
      real_malloc_p = False, real_calloc_p = False, real_free_p = False, real_realloc_p = False,
      active_mmaps = 0, head_bigmaacs = None, head_fries = None,
      min_size_bigmaac = 1048576, min_size_fry = 0,
      base_fries = 0, base_bigmaac = 0, end_fries = 0, end_bigmaac = 0,
      size_fries = 1048576, size_bigmaac = 1048576, template_len = Some 20,
      fry_size_multiple = 32, used_fries = 0, used_bigmaacs = 0, page_size = 0,
      load_state = NOT_LOADED, errno = 0, trace = [], env = example_env sf sb,
      real_supply = [1000, 2000, 3000, 4000, 5000, 6000, 7000, 8000, 9000, 10000, 11000, 12000,
                     13000, 14000, 15000, 16000, 17000, 18000, 19000, 20000],
      tmpfile_script = [], remap_script = [], mapped = []\<rparr>"

text \<open>
  The example process with arenas of 16 MiB and 256 MiB: once initialised, and after one
  \<open>malloc(5000)\<close>.
\<close>

definition loaded_process :: state where
  "loaded_process = the (bigmaac_init (process_start 16777216 268435456))"

definition process_with_fry :: state where
  "process_with_fry = snd (the (malloc (process_start 16777216 268435456) 5000))"

text \<open>
  A heap of three free blocks: 1 MiB at the root, 512 KiB and 768 KiB in its children.
\<close>

definition three_blocks :: nodes where
  "three_blocks =
     (\<lambda>r. None)
       (100 \<mapsto> \<lparr>next_n = None, previous = None, in_use = FREE, heap_idx = 0,
                 ptr = 1073741824, size_n = 1048576, heap_n = None\<rparr>,
        200 \<mapsto> \<lparr>next_n = None, previous = None, in_use = FREE, heap_idx = 1,
                 ptr = 1075838976, size_n = 524288, heap_n = None\<rparr>,
        300 \<mapsto> \<lparr>next_n = None, previous = None, in_use = FREE, heap_idx = 2,
                 ptr = 1077936128, size_n = 786432, heap_n = None\<rparr>)"

definition three_blocks_heap :: heap where
  "three_blocks_heap = \<lparr>used = 3, length_h = 4, node_array = 7000, slots = [100, 200, 300, 0]\<rparr>"

text \<open>
  Runs of the example process, each with what is observed at its end.
  \<open>run_calloc\<close>: one \<open>calloc(count, sz)\<close>; the address returned, the size and state
  of its block, the two used-bytes counters and the last event.
\<close>

definition run_calloc :: "nat \<Rightarrow> nat \<Rightarrow> (nat \<times> nat \<times> memory_use \<times> nat \<times> nat \<times> event) option" where
  "run_calloc count sz = do {
     (p, st) \<leftarrow> calloc (process_start 16777216 268435456) count sz;
     blk \<leftarrow> block_at st p;
     Some (p, size_n blk, in_use blk, used_fries st, used_bigmaacs st, last (trace st))
   }"

text \<open>
  \<open>run_malloc_oom\<close>: with a bigmaac arena of 1 MiB, \<open>malloc(2097152)\<close> after the
  initialisation; the address returned, whether \<open>errno\<close> is \<open>ENOMEM\<close>, whether the
  block records and the heaps are unchanged, and \<open>used_bigmaacs\<close> before and after.
\<close>

definition run_malloc_oom :: "(nat \<times> bool \<times> bool \<times> bool \<times> nat \<times> nat) option" where
  "run_malloc_oom = do {
     st \<leftarrow> bigmaac_init (process_start 16777216 1048576);
     (p, st') \<leftarrow> malloc st 2097152;
     Some (p, errno st' = ENOMEM, nodes st' = nodes st, heaps st' = heaps st,
           used_bigmaacs st, used_bigmaacs st')
   }"

text \<open>
  \<open>run_double_free\<close>: \<open>p = malloc(8192); free(p); free(p)\<close>; \<open>used_fries\<close> and the
  occupied part of the fry heap after the first and after the second \<open>free\<close>, and the
  events of the second \<open>free\<close>.
\<close>

definition run_double_free ::
    "(nat \<times> nat \<times> nat list \<times> nat \<times> nat \<times> nat list \<times> event list) option" where
  "run_double_free = do {
     (p, st1) \<leftarrow> malloc (process_start 16777216 268435456) 8192;
     st2 \<leftarrow> free st1 p;
     st3 \<leftarrow> free st2 p;
     (hp2, h2) \<leftarrow> head_heap st2 (head_fries st2);
     (hp3, h3) \<leftarrow> head_heap st3 (head_fries st3);
     Some (used_fries st2, used h2, take (used h2) (slots h2),
           used_fries st3, used h3, take (used h3) (slots h3),
           drop (length (trace st2)) (trace st3))
   }"

text \<open>
  \<open>run_free_last_block\<close>: in a fry arena of 16384 bytes,
  \<open>p = malloc(8192); q = malloc(8192); free(p)\<close>; the two addresses, the states of their
  blocks, the \<open>next\<close> pointer of the block of \<open>q\<close>, and the outcome of \<open>free(q)\<close>.
\<close>

definition run_free_last_block ::
    "(nat \<times> nat \<times> memory_use option \<times> memory_use option \<times> nat option option \<times> state option) option" where
  "run_free_last_block = do {
     (p, st1) \<leftarrow> malloc (process_start 16384 268435456) 8192;
     (q, st2) \<leftarrow> malloc st1 8192;
     st3 \<leftarrow> free st2 p;
     Some (p, q, map_option in_use (block_at st3 p), map_option in_use (block_at st3 q),
           map_option next_n (block_at st3 q), free st3 q)
   }"

text \<open>
  \<open>run_exact_fit_in_last_slot\<close>: in a fry arena of 32768 bytes,
  \<open>a = malloc(8192); b = malloc(8192); free(a); c = malloc(8192)\<close>; whether \<open>c\<close> is
  \<open>a\<close>, the state and the recorded heap index of its block, and the occupied part of the
  fry heap.
\<close>

definition run_exact_fit_in_last_slot :: "(bool \<times> memory_use \<times> int \<times> nat \<times> nat list) option" where
  "run_exact_fit_in_last_slot = do {
     (a, st1) \<leftarrow> malloc (process_start 32768 268435456) 8192;
     (b, st2) \<leftarrow> malloc st1 8192;
     st3 \<leftarrow> free st2 a;
     (c, st4) \<leftarrow> malloc st3 8192;
     blk \<leftarrow> block_at st4 c;
     (hp, h) \<leftarrow> head_heap st4 (head_fries st4);
     Some (c = a, in_use blk, heap_idx blk, used h, take (used h) (slots h))
   }"

text \<open>
  \<open>later st st'\<close>: the state \<open>st'\<close> has the load state of \<open>st\<close>, and its trace is at
  least as long.
\<close>

definition later :: "state \<Rightarrow> state \<Rightarrow> bool" where
  "later st st' = (load_state st' = load_state st \<and> length (trace st) \<le> length (trace st'))"

text \<open>
  The example process with a fry arena of 16384 bytes, initialised.
\<close>

definition small_process :: state where
  "small_process = the (bigmaac_init (process_start 16384 268435456))"

text \<open>
  The initialised example process under a kernel that refuses a mapping of length 0, as
  Linux does with \<open>EINVAL\<close>: in the runs below the next file mapping and the next
  \<open>PROT_NONE\<close> remapping are those of 0 bytes, and they fail.
\<close>

definition refusing_process :: state where
  "refusing_process = loaded_process\<lparr>tmpfile_script := [Mmap_fails], remap_script := [False]\<rparr>"

text \<open>
  \<open>run_malloc_size_max\<close>: \<open>malloc(SIZE_MAX)\<close>; the size \<open>create_chunk\<close> rounds the
  request to, the address returned, whether \<open>errno\<close> is \<open>ENOMEM\<close>, and of the block found
  at the base of the bigmaac arena afterwards: whether it starts there, its size and its
  state; then \<open>used_bigmaacs\<close>.
\<close>

definition run_malloc_size_max ::
    "(nat option \<times> nat \<times> bool \<times> bool \<times> nat \<times> memory_use \<times> nat) option" where
  "run_malloc_size_max = do {
     (p, st) \<leftarrow> malloc refusing_process 18446744073709551615;
     blk \<leftarrow> block_at st (base_bigmaac st);
     Some (SIZE_TO_MULTIPLE 18446744073709551615 (page_size st), p, errno st = ENOMEM,
           ptr blk = base_bigmaac st, size_n blk, in_use blk, used_bigmaacs st)
   }"

text \<open>
  \<open>run_realloc_behind_empty_block\<close>: \<open>malloc(SIZE_MAX); q = malloc(requested);
  realloc(q, sz)\<close>; the address \<open>q\<close>, the size \<open>create_chunk\<close> rounds \<open>requested\<close> to,
  the size of the block \<open>heap_find_node\<close> finds for \<open>q\<close>, of the block after it in the
  list: whether it starts at \<open>q\<close>, its size and its state; then the address \<open>realloc\<close>
  returns.
\<close>

definition run_realloc_behind_empty_block ::
    "nat \<Rightarrow> nat \<Rightarrow> (nat \<times> nat option \<times> nat \<times> bool \<times> nat \<times> memory_use \<times> nat) option" where
  "run_realloc_behind_empty_block requested sz = do {
     (p, st1) \<leftarrow> malloc refusing_process 18446744073709551615;
     (q, st2) \<leftarrow> malloc st1 requested;
     found \<leftarrow> heap_find_node st2 q;
     n \<leftarrow> found;
     empty \<leftarrow> nodes st2 n;
     nx \<leftarrow> next_n empty;
     blk \<leftarrow> nodes st2 nx;
     (r, st3) \<leftarrow> realloc st2 q sz;
     Some (q, SIZE_TO_MULTIPLE requested (page_size st2), size_n empty,
           ptr blk = q, size_n blk, in_use blk, r)
   }"

section \<open>Lemmas\<close>

lemmas model_defs =
  SIZE_T_RANGE_def add_size_t_def sub_size_t_def mul_size_t_def size_t_of_int_def
  SIZE_TO_MULTIPLE_def sizeof_node_def sizeof_heap_def sizeof_node_ptr_def node_at_def
  LARGER_GAP_def SWAP_NODES_def heapify_up.simps largest_idx_def heapify_down.simps
  heap_remove_idx_def ENOMEM_def emit_def OOM_def take_supply_def take_tmpfile_outcome_def
  take_remap_outcome_def real_malloc_def real_calloc_def real_realloc_def real_free_def
  cut_range_def accessible_def usable_def memset_def memcpy_def
  head_heap_def is_FREE_def UNLINK_def heap_insert_def heap_free_node_def
  choose_free_node_def heap_pop_split_def find_node_from.simps heap_find_node_def ll_new_def
  mmap_tmpfile_def bigmaac_init_def create_chunk_def memblock_copy_def
  remove_chunk_with_ptr_def init_if_not_loaded_def malloc_def calloc_def realloc_def
  reallocarray_def free_def block_at_def example_env_def process_start_def Let_def
  signed_divide_int_def

lemma replicate_numeral_eval: "replicate (numeral k) x = x # replicate (pred_numeral k) x"
  by (simp add: numeral_eq_Suc)

subsection \<open>Rounding\<close>

lemma rounded_up_exact:
  assumes "0 < m"
  shows "rounded_up sz m (if sz mod m > 0 then sz + (m - sz mod m) else sz)"
proof (cases "sz mod m > 0")
  case False
  then have "m dvd sz" by auto
  with False assms show ?thesis by (simp add: rounded_up_def)
next
  case True
  have lt: "sz mod m < m" using assms by simp
  have "m dvd (sz - sz mod m) + m"
    by (rule dvd_add) (rule dvd_minus_mod, rule dvd_refl)
  moreover have "(sz - sz mod m) + m = sz + (m - sz mod m)"
    using lt mod_less_eq_dividend[of sz m] by linarith
  ultimately have d: "m dvd sz + (m - sz mod m)" by (simp only:)
  have "sz \<le> sz + (m - sz mod m)" "sz + (m - sz mod m) < sz + m"
    using True lt by linarith+
  with d True show ?thesis unfolding rounded_up_def by (simp only: if_True simp_thms)
qed

lemma sub_size_t_small:
  assumes "k \<le> m" "m < SIZE_T_RANGE" "0 < k"
  shows "sub_size_t m k = m - k"
proof -
  have k: "k mod SIZE_T_RANGE = k" using assms by simp
  have "m + (SIZE_T_RANGE - k) = (m - k) + SIZE_T_RANGE" using assms by linarith
  then have "(m + (SIZE_T_RANGE - k)) mod SIZE_T_RANGE = (m - k) mod SIZE_T_RANGE"
    by (simp only: mod_add_self2)
  also have "\<dots> = m - k" using assms by simp
  finally show ?thesis by (simp only: sub_size_t_def k)
qed

lemma SIZE_TO_MULTIPLE_rounds_up:
  assumes "0 < m" "m < SIZE_T_RANGE" "sz < SIZE_T_RANGE"
  shows "\<exists>r. rounded_up sz m r \<and> SIZE_TO_MULTIPLE sz m = Some (r mod SIZE_T_RANGE)"
proof -
  let ?r = "if sz mod m > 0 then sz + (m - sz mod m) else sz"
  have lt: "sz mod m < m" using assms by simp
  have "SIZE_TO_MULTIPLE sz m = Some (?r mod SIZE_T_RANGE)"
  proof (cases "sz mod m > 0")
    case True
    with lt assms(2) have "sub_size_t m (sz mod m) = m - sz mod m"
      by (intro sub_size_t_small) simp_all
    with True assms(1) show ?thesis by (simp add: SIZE_TO_MULTIPLE_def add_size_t_def)
  next
    case False
    with assms show ?thesis by (simp add: SIZE_TO_MULTIPLE_def)
  qed
  with rounded_up_exact[OF assms(1), of sz] show ?thesis by blast
qed

subsection \<open>What an arena operation leaves alone\<close>

lemma real_malloc_heads:
  assumes "real_malloc st sz = Some (p, st')"
  shows "head_bigmaacs st' = head_bigmaacs st \<and> head_fries st' = head_fries st"
  using assms
  by (auto simp: real_malloc_def take_supply_def emit_def split: if_splits list.splits)

lemma heap_pop_split_heads:
  assumes "heap_pop_split st head sz = Some (r, st')"
  shows "head_bigmaacs st' = head_bigmaacs st \<and> head_fries st' = head_fries st"
  using assms
  apply (clarsimp simp: heap_pop_split_def bind_eq_Some_conv Let_def
        simp del: fun_upd_apply split: option.splits if_splits)
   apply (auto dest!: real_malloc_heads)
  done

lemma create_chunk_fry:
  assumes "head_fries st \<noteq> head_bigmaacs st" "sz \<le> min_size_bigmaac st"
    "SIZE_TO_MULTIPLE sz (fry_size_multiple st) = Some r"
  shows "create_chunk st sz = fry_chunk st r"
proof (cases "heap_pop_split (st\<lparr>used_fries := add_size_t (used_fries st) r\<rparr>) (head_fries st) r")
  case None
  with assms show ?thesis by (simp add: create_chunk_def fry_chunk_def Let_def)
next
  case (Some a)
  obtain res st1 where a: "a = (res, st1)" by (cases a)
  from heap_pop_split_heads[OF Some[unfolded a]] have "head_bigmaacs st1 = head_bigmaacs st"
    by simp
  with assms Some a show ?thesis
    by (simp add: create_chunk_def fry_chunk_def Let_def split: option.splits)
qed

lemma create_chunk_bigmaac:
  assumes "min_size_bigmaac st < sz"
    "SIZE_TO_MULTIPLE sz (page_size st) = Some r"
  shows "create_chunk st sz = bigmaac_chunk st r"
proof (cases "heap_pop_split (st\<lparr>used_bigmaacs := add_size_t (used_bigmaacs st) r\<rparr>)
                (head_bigmaacs st) r")
  case None
  with assms show ?thesis by (simp add: create_chunk_def bigmaac_chunk_def Let_def)
next
  case (Some a)
  obtain res st1 where a: "a = (res, st1)" by (cases a)
  from heap_pop_split_heads[OF Some[unfolded a]] have "head_bigmaacs st1 = head_bigmaacs st"
    by simp
  with assms Some a show ?thesis
    by (simp add: create_chunk_def bigmaac_chunk_def Let_def split: option.splits prod.splits)
qed

subsection \<open>The slots of a valid heap\<close>

lemma slot_size_valid:
  assumes "heap_slots_valid ns h" "i < used h"
  shows "\<exists>n. node_at h (int i) = Some (slots h ! i) \<and> ns (slots h ! i) = Some n
            \<and> slot_size ns h i = Some (size_n n)"
proof -
  from assms have len: "i < length (slots h)" and arr: "node_array h \<noteq> 0"
    by (simp_all add: heap_slots_valid_def)
  from assms have "ns (take (used h) (slots h) ! i) \<noteq> None"
    by (simp add: heap_slots_valid_def list_all_length)
  with assms(2) obtain n where "ns (slots h ! i) = Some n" by auto
  with len arr assms(2) show ?thesis by (simp add: slot_size_def node_at_def)
qed

subsection \<open>The heap operations change the recorded indices only\<close>

lemma same_blocks_refl: "same_blocks ns ns"
  by (simp add: same_blocks_def)

lemma same_blocks_trans: "same_blocks a b \<Longrightarrow> same_blocks b c \<Longrightarrow> same_blocks a c"
  by (simp add: same_blocks_def)

lemma same_blocks_index:
  assumes "ns r = Some x"
  shows "same_blocks ns (ns(r \<mapsto> x\<lparr>heap_idx := i\<rparr>))"
  using assms by (simp add: same_blocks_def unindexed_def)

lemma SWAP_NODES_same_blocks:
  assumes "SWAP_NODES ns h a b = Some (ns', h')"
  shows "same_blocks ns ns'"
proof -
  from assms obtain ra na rb nb where
    1: "ns ra = Some na" and 2: "(ns(ra \<mapsto> na\<lparr>heap_idx := b\<rparr>)) rb = Some nb"
    and 3: "ns' = (ns(ra \<mapsto> na\<lparr>heap_idx := b\<rparr>))(rb \<mapsto> nb\<lparr>heap_idx := a\<rparr>)"
    by (auto simp: SWAP_NODES_def bind_eq_Some_conv Let_def simp del: fun_upd_apply)
  have a: "same_blocks ns (ns(ra \<mapsto> na\<lparr>heap_idx := b\<rparr>))"
    using 1 by (rule same_blocks_index)
  have b: "same_blocks (ns(ra \<mapsto> na\<lparr>heap_idx := b\<rparr>))
             ((ns(ra \<mapsto> na\<lparr>heap_idx := b\<rparr>))(rb \<mapsto> nb\<lparr>heap_idx := a\<rparr>))"
    using 2 by (rule same_blocks_index)
  from same_blocks_trans[OF a b] 3 show ?thesis by simp
qed

lemma heapify_down_same_blocks:
  "heapify_down ns h idx = Some (ns', h') \<Longrightarrow> same_blocks ns ns'"
proof (induction ns h idx rule: heapify_down.induct)
  case (1 ns h idx)
  from "1.prems" obtain largest where l: "largest_idx ns h idx = Some largest"
    by (subst (asm) heapify_down.simps) (auto split: option.splits)
  show ?case
  proof (cases "largest = idx")
    case True
    with "1.prems" l show ?thesis
      by (subst (asm) heapify_down.simps) (simp add: same_blocks_refl)
  next
    case False
    with "1.prems" l obtain ns1 h1 where
      s: "SWAP_NODES ns h idx largest = Some (ns1, h1)"
      and r: "heapify_down ns1 h1 largest = Some (ns', h')"
      by (subst (asm) heapify_down.simps) (auto split: option.splits)
    from "1.IH"[OF l False s refl r] SWAP_NODES_same_blocks[OF s]
    show ?thesis by (blast intro: same_blocks_trans)
  qed
qed

lemma heap_remove_idx_same_blocks:
  assumes "heap_remove_idx ns h idx = Some (ns', h')"
  shows "same_blocks ns ns'"
proof (cases "used h = 1")
  case True
  with assms show ?thesis
    by (auto simp: heap_remove_idx_def bind_eq_Some_conv same_blocks_def unindexed_def)
next
  case False
  with assms obtain ri ni rl nl h1 where
    1: "ns ri = Some ni" and 2: "(ns(ri \<mapsto> ni\<lparr>heap_idx := -1\<rparr>)) rl = Some nl"
    and 3: "heapify_down ((ns(ri \<mapsto> ni\<lparr>heap_idx := -1\<rparr>))(rl \<mapsto> nl\<lparr>heap_idx := idx\<rparr>)) h1 idx
              = Some (ns', h')"
    by (auto simp: heap_remove_idx_def bind_eq_Some_conv Let_def simp del: fun_upd_apply)
  have a: "same_blocks ns (ns(ri \<mapsto> ni\<lparr>heap_idx := -1\<rparr>))"
    using 1 by (rule same_blocks_index)
  have b: "same_blocks (ns(ri \<mapsto> ni\<lparr>heap_idx := -1\<rparr>))
             ((ns(ri \<mapsto> ni\<lparr>heap_idx := -1\<rparr>))(rl \<mapsto> nl\<lparr>heap_idx := idx\<rparr>))"
    using 2 by (rule same_blocks_index)
  from same_blocks_trans[OF same_blocks_trans[OF a b] heapify_down_same_blocks[OF 3]]
  show ?thesis .
qed

lemma same_blocks_SomeD:
  assumes "same_blocks ns ns'" "ns r = Some x"
  shows "\<exists>x'. ns' r = Some x' \<and> ptr x' = ptr x \<and> next_n x' = next_n x \<and> size_n x' = size_n x
              \<and> previous x' = previous x \<and> in_use x' = in_use x"
proof -
  from assms have "map_option unindexed (ns' r) = Some (unindexed x)"
    by (simp add: same_blocks_def)
  then obtain x' where x': "ns' r = Some x'" "unindexed x' = unindexed x" by auto
  from x'(2) have "ptr x' = ptr x \<and> next_n x' = next_n x \<and> size_n x' = size_n x
              \<and> previous x' = previous x \<and> in_use x' = in_use x"
    by (cases x, cases x') (simp add: unindexed_def)
  with x'(1) show ?thesis by blast
qed

lemma same_blocks_None:
  assumes "same_blocks ns ns'" "ns r = None"
  shows "ns' r = None"
proof -
  from assms have "map_option unindexed (ns' r) = None"
    by (simp add: same_blocks_def)
  then show ?thesis by simp
qed

lemma same_blocks_same_walk:
  assumes "same_blocks ns ns'"
  shows "same_walk ns ns' r"
proof (cases "ns r")
  case None
  with same_blocks_None[OF assms None] show ?thesis by (simp add: same_walk_def)
next
  case (Some x)
  from same_blocks_SomeD[OF assms Some] Some show ?thesis by (auto simp: same_walk_def)
qed

subsection \<open>The walk of \<open>heap_find_node\<close>\<close>

lemma same_walk_SomeD:
  assumes "same_walk ns ns' r" "ns r = Some x"
  shows "\<exists>x'. ns' r = Some x' \<and> ptr x' = ptr x \<and> next_n x' = next_n x"
  using assms by (auto simp: same_walk_def)

lemma find_node_from_same_walk:
  assumes major: "find_node_from ns head a = Some y" and sw: "\<forall>r. same_walk ns ns' r"
  shows "find_node_from ns' head a = Some y"
proof -
  have "ns = ns \<longrightarrow> find_node_from ns' head a = Some y"
  proof (rule find_node_from.raw_induct[where
        P = "\<lambda>n h b z. n = ns \<longrightarrow> find_node_from ns' h b = Some z", OF _ major])
    fix f n h b z
    assume ih: "\<And>n h b z. f n h b = Some z \<Longrightarrow> n = ns \<longrightarrow> find_node_from ns' h b = Some z"
      and eq: "(case h of None \<Rightarrow> Some None
                | Some r \<Rightarrow> (case n r of None \<Rightarrow> None
                    | Some x \<Rightarrow> if ptr x = b then Some (Some r) else f n (next_n x) b)) = Some z"
    show "n = ns \<longrightarrow> find_node_from ns' h b = Some z"
    proof
      assume n: "n = ns"
      show "find_node_from ns' h b = Some z"
      proof (cases h)
        case None
        with eq have "z = None" by simp
        with None show ?thesis by (subst find_node_from.simps) simp
      next
        case (Some r)
        with eq n obtain x where x: "ns r = Some x" by (auto split: option.splits)
        from same_walk_SomeD[OF sw[rule_format] x] obtain x' where
          x': "ns' r = Some x'" "ptr x' = ptr x" "next_n x' = next_n x" by blast
        show ?thesis
        proof (cases "ptr x = b")
          case True
          with eq Some x n have "z = Some r" by simp
          with True Some x' show ?thesis by (subst find_node_from.simps) simp
        next
          case False
          with eq Some x n have "f ns (next_n x) b = Some z" by simp
          from ih[OF this] have "find_node_from ns' (next_n x) b = Some z" by simp
          with False Some x' show ?thesis by (subst find_node_from.simps) simp
        qed
      qed
    qed
  qed
  then show ?thesis by simp
qed

lemma find_node_from_after_insert:
  assumes old: "find_node_from ns head a = Some (Some fr)"
    and head_ne: "head \<noteq> Some fr"
    and pv: "ns pv = Some x" "ns' pv = Some x'" "ptr x' = ptr x" "next_n x' = Some u"
    and uniq: "\<forall>r y. ns r = Some y \<and> next_n y = Some fr \<longrightarrow> r = pv"
    and pv_next: "next_n x = Some fr"
    and fresh: "ns u = None"
    and u: "ns' u = Some un" "ptr un = a"
    and rest: "\<forall>r. r \<noteq> u \<and> r \<noteq> pv \<and> r \<noteq> fr \<longrightarrow> same_walk ns ns' r"
  shows "find_node_from ns' head a = Some (Some u)"
proof -
  have at_u: "find_node_from ns' (Some u) a = Some (Some u)"
    using u by (subst find_node_from.simps) simp
  have "ns = ns \<and> a = a \<and> Some fr = Some fr \<and> head \<noteq> Some fr
          \<longrightarrow> find_node_from ns' head a = Some (Some u)"
  proof (rule find_node_from.raw_induct[where
        P = "\<lambda>n h b z. n = ns \<and> b = a \<and> z = Some fr \<and> h \<noteq> Some fr
               \<longrightarrow> find_node_from ns' h a = Some (Some u)", OF _ old])
    fix f n h b z
    assume ih: "\<And>n h b z. f n h b = Some z \<Longrightarrow>
                  n = ns \<and> b = a \<and> z = Some fr \<and> h \<noteq> Some fr
                  \<longrightarrow> find_node_from ns' h a = Some (Some u)"
      and eq: "(case h of None \<Rightarrow> Some None
                | Some r \<Rightarrow> (case n r of None \<Rightarrow> None
                    | Some x \<Rightarrow> if ptr x = b then Some (Some r) else f n (next_n x) b)) = Some z"
    show "n = ns \<and> b = a \<and> z = Some fr \<and> h \<noteq> Some fr
            \<longrightarrow> find_node_from ns' h a = Some (Some u)"
    proof
      assume c: "n = ns \<and> b = a \<and> z = Some fr \<and> h \<noteq> Some fr"
      from c eq obtain r where h: "h = Some r" and r_fr: "r \<noteq> fr"
        by (cases h) auto
      with eq c obtain y where y: "ns r = Some y" by (auto split: option.splits)
      from eq h y c r_fr have ne: "ptr y \<noteq> a" by (auto split: if_splits)
      with eq h y c have rec: "f ns (next_n y) a = Some (Some fr)" by simp
      show "find_node_from ns' h a = Some (Some u)"
      proof (cases "next_n y = Some fr")
        case True
        with uniq y have "r = pv" by blast
        with y pv ne at_u h show ?thesis by (subst find_node_from.simps) simp
      next
        case False
        from ih[OF rec] False
        have ih': "find_node_from ns' (next_n y) a = Some (Some u)" by simp
        from False y pv(1) pv_next have "r \<noteq> pv" by auto
        moreover from y fresh have "r \<noteq> u" by auto
        ultimately have "same_walk ns ns' r" using rest r_fr by blast
        from same_walk_SomeD[OF this y] obtain y' where
          "ns' r = Some y'" "ptr y' = ptr y" "next_n y' = next_n y" by blast
        with ne ih' h show ?thesis by (subst find_node_from.simps) simp
      qed
    qed
  qed
  with head_ne show ?thesis by simp
qed

subsection \<open>The block carved by \<open>heap_pop_split\<close>\<close>

lemma node_at_in_take:
  assumes "node_at h (int i) = Some r" "i < used h"
  shows "r \<in> set (take (used h) (slots h))"
proof -
  from assms(1) have i: "i < length (slots h)" and r: "r = slots h ! i"
    by (auto simp: node_at_def split: if_splits)
  from i assms(2) have "take (used h) (slots h) ! i = slots h ! i"
    and "i < length (take (used h) (slots h))" by simp_all
  with r show ?thesis by (metis nth_mem)
qed

lemma choose_free_node_in_heap:
  assumes "choose_free_node ns h sz = Some (Some fr)"
  shows "fr \<in> set (take (used h) (slots h))"
proof -
  from assms have u0: "0 < used h" by (auto simp: choose_free_node_def split: if_splits)
  from assms u0 obtain r0 where r0: "node_at h 0 = Some r0"
    by (auto simp: choose_free_node_def bind_eq_Some_conv split: if_splits)
  from node_at_in_take[of h 0 r0] r0 u0 have m0: "r0 \<in> set (take (used h) (slots h))" by simp
  have m1: "r1 \<in> set (take (used h) (slots h))" if "node_at h 1 = Some r1" "1 < used h" for r1
    using node_at_in_take[of h 1 r1] that by simp
  have m2: "r2 \<in> set (take (used h) (slots h))" if "node_at h 2 = Some r2" "2 < used h" for r2
    using node_at_in_take[of h 2 r2] that by simp
  from assms u0 r0 m0 m1 m2 show ?thesis
    by (auto simp: choose_free_node_def bind_eq_Some_conv split: if_splits)
qed

lemma heap_pop_split_exact:
  assumes "head_heap st head = Some (hp, h)"
    and "choose_free_node (nodes st) h sz = Some (Some fr)"
    and "nodes st fr = Some f" and "size_n f = sz"
  shows "heap_pop_split st head sz =
           (case heap_remove_idx (nodes st) h (heap_idx f) of
              None \<Rightarrow> None
            | Some (ns1, h1) \<Rightarrow>
                (case ns1 fr of
                   None \<Rightarrow> None
                 | Some f1 \<Rightarrow>
                     Some (Some fr, st\<lparr>nodes := ns1(fr \<mapsto> f1\<lparr>in_use := IN_USE\<rparr>),
                                       heaps := (heaps st)(hp \<mapsto> h1)\<rparr>)))"
  using assms
  by (simp add: heap_pop_split_def split: option.splits prod.splits)

lemma heap_pop_split_split:
  assumes "head_heap st head = Some (hp, h)"
    and "choose_free_node (nodes st) h sz = Some (Some fr)"
    and "nodes st fr = Some f" and "size_n f \<noteq> sz"
    and "real_malloc st sizeof_node = Some (u, st1)" and "u \<noteq> 0"
    and "nodes st1 = nodes st" and "u \<noteq> fr"
    and "previous f = Some pv" and "nodes st pv = Some x" and "pv \<noteq> fr" and "pv \<noteq> u"
  shows "heap_pop_split st head sz =
           (case heapify_down
                   ((nodes st)
                      (u \<mapsto> \<lparr>next_n = Some fr, previous = Some pv, in_use = IN_USE,
                              heap_idx = -1, ptr = ptr f, size_n = sz, heap_n = None\<rparr>,
                       pv \<mapsto> x\<lparr>next_n := Some u\<rparr>,
                       fr \<mapsto> f\<lparr>size_n := sub_size_t (size_n f) sz,
                                ptr := add_size_t (ptr f) sz, previous := Some u\<rparr>))
                   h (heap_idx f) of
              None \<Rightarrow> None
            | Some (ns6, h1) \<Rightarrow>
                Some (Some u, st1\<lparr>nodes := ns6, heaps := (heaps st1)(hp \<mapsto> h1)\<rparr>))"
proof -
  have tw: "\<And>m a. m(fr \<mapsto> a, pv \<mapsto> x\<lparr>next_n := Some u\<rparr>) = m(pv \<mapsto> x\<lparr>next_n := Some u\<rparr>, fr \<mapsto> a)"
    using assms(11) by (simp add: fun_upd_twist)
  from assms show ?thesis
    by (simp add: heap_pop_split_def Let_def tw split: option.splits prod.splits)
qed

lemma real_malloc_takes:
  assumes "real_malloc st n = Some (u, st1)" "u \<noteq> 0"
  shows "\<exists>ps. real_supply st = u # ps
              \<and> st1 = st\<lparr>real_supply := ps, trace := trace st @ [Real_malloc n u]\<rparr>"
  using assms
  by (auto simp: real_malloc_def take_supply_def emit_def split: if_splits list.splits)

lemma free_block_okD:
  assumes "free_block_ok st r"
  shows "\<exists>f pv x. nodes st r = Some f \<and> previous f = Some pv \<and> nodes st pv = Some x
           \<and> next_n x = Some r \<and> pv \<noteq> r
           \<and> Some r \<noteq> head_fries st \<and> Some r \<noteq> head_bigmaacs st
           \<and> base_fries st \<le> ptr f \<and> ptr f < end_bigmaac st
           \<and> heap_find_node st (ptr f) = Some (Some r)
           \<and> (\<forall>q y. nodes st q = Some y \<and> next_n y = Some r \<longrightarrow> q = pv)"
  using assms by (auto simp: free_block_ok_def split: option.splits)

lemma heap_pop_split_carved:
  assumes run: "heap_pop_split st head sz = Some (Some c, st')"
    and ok: "arena_ok st head" and fresh: "supply_fresh st"
  shows "carved st st' c sz"
proof -
  from ok obtain hp h where hh: "head_heap st head = Some (hp, h)"
    and all: "list_all (free_block_ok st) (take (used h) (slots h))"
    by (auto simp: arena_ok_def split: option.splits)
  from run hh obtain fr where ch: "choose_free_node (nodes st) h sz = Some (Some fr)"
    by (cases "choose_free_node (nodes st) h sz")
       (auto simp: heap_pop_split_def split: option.splits)
  from choose_free_node_in_heap[OF ch] all have "free_block_ok st fr"
    by (simp add: list_all_iff)
  from free_block_okD[OF this] obtain f pv x where
    f: "nodes st fr = Some f" and pvf: "previous f = Some pv" and x: "nodes st pv = Some x"
    and xn: "next_n x = Some fr" and pv_fr: "pv \<noteq> fr"
    and hd1: "Some fr \<noteq> head_fries st" and hd2: "Some fr \<noteq> head_bigmaacs st"
    and lo: "base_fries st \<le> ptr f" and hi: "ptr f < end_bigmaac st"
    and find: "heap_find_node st (ptr f) = Some (Some fr)"
    and uniq: "\<forall>q y. nodes st q = Some y \<and> next_n y = Some fr \<longrightarrow> q = pv"
    by blast
  let ?head = "if ptr f < base_bigmaac st then head_fries st else head_bigmaacs st"
  from find have old: "find_node_from (nodes st) ?head (ptr f) = Some (Some fr)"
    by (simp add: heap_find_node_def)
  from hd1 hd2 have head_ne: "?head \<noteq> Some fr" by auto
  from fresh have dist: "distinct (real_supply st)"
    and unalloc: "\<forall>a \<in> set (real_supply st). nodes st a = None"
    by (simp_all add: supply_fresh_def list_all_iff)
  show ?thesis
  proof (cases "size_n f = sz")
    case True
    from run heap_pop_split_exact[OF hh ch f True]
    have eq: "(case heap_remove_idx (nodes st) h (heap_idx f) of
                 None \<Rightarrow> None
               | Some (ns1, h1) \<Rightarrow>
                   (case ns1 fr of
                      None \<Rightarrow> None
                    | Some f1 \<Rightarrow>
                        Some (Some fr, st\<lparr>nodes := ns1(fr \<mapsto> f1\<lparr>in_use := IN_USE\<rparr>),
                                          heaps := (heaps st)(hp \<mapsto> h1)\<rparr>)))
              = Some (Some c, st')"
      by (simp only:)
    then obtain a where a: "heap_remove_idx (nodes st) h (heap_idx f) = Some a"
      by (cases "heap_remove_idx (nodes st) h (heap_idx f)") simp_all
    obtain ns1 h1 where a2: "a = (ns1, h1)" by (cases a)
    from a a2 have rm: "heap_remove_idx (nodes st) h (heap_idx f) = Some (ns1, h1)" by simp
    from eq rm obtain f1 where f1: "ns1 fr = Some f1"
      by (cases "ns1 fr") simp_all
    from eq rm f1 have c: "c = fr"
      and st': "st' = st\<lparr>nodes := ns1(fr \<mapsto> f1\<lparr>in_use := IN_USE\<rparr>),
                          heaps := (heaps st)(hp \<mapsto> h1)\<rparr>"
      by auto
    have sb: "same_blocks (nodes st) ns1" by (rule heap_remove_idx_same_blocks[OF rm])
    from same_blocks_SomeD[OF sb f] f1 have
      e: "ptr f1 = ptr f" "next_n f1 = next_n f" "size_n f1 = size_n f" by auto
    have sw: "\<forall>r. same_walk (nodes st) (ns1(fr \<mapsto> f1\<lparr>in_use := IN_USE\<rparr>)) r"
    proof
      fix r
      show "same_walk (nodes st) (ns1(fr \<mapsto> f1\<lparr>in_use := IN_USE\<rparr>)) r"
        using same_blocks_same_walk[OF sb, of r] f e by (simp add: same_walk_def)
    qed
    from find_node_from_same_walk[OF old sw]
    have look: "heap_find_node st' (ptr f) = Some (Some fr)"
      by (simp add: heap_find_node_def st' split: if_splits)
    have sf: "supply_fresh st'"
    proof -
      have "ns1 a = None" if "a \<in> set (real_supply st)" for a
        using same_blocks_None[OF sb] unalloc that by blast
      moreover have "a \<noteq> fr" if "a \<in> set (real_supply st)" for a
        using unalloc that f by auto
      ultimately show ?thesis using dist by (simp add: supply_fresh_def list_all_iff st')
    qed
    have fr: "same_layout st st'" by (simp add: same_layout_def st')
    from fr sf look e True lo hi c show ?thesis
      by (simp add: carved_def st')
  next
    case False
    from run hh ch f False obtain u st1 where rmal: "real_malloc st sizeof_node = Some (u, st1)"
      by (cases "real_malloc st sizeof_node") (auto simp: heap_pop_split_def)
    have u0: "u \<noteq> 0"
    proof
      assume "u = 0"
      with run hh ch f False rmal show False by (simp add: heap_pop_split_def)
    qed
    from real_malloc_takes[OF rmal u0] obtain ps where
      sup: "real_supply st = u # ps"
      and st1: "st1 = st\<lparr>real_supply := ps, trace := trace st @ [Real_malloc sizeof_node u]\<rparr>"
      by blast
    from st1 have n1: "nodes st1 = nodes st" by simp
    from sup unalloc have un: "nodes st u = None" by simp
    from un f have u_fr: "u \<noteq> fr" by auto
    from un x have pv_u: "pv \<noteq> u" by auto
    let ?U = "\<lparr>next_n = Some fr, previous = Some pv, in_use = IN_USE,
              heap_idx = -1, ptr = ptr f, size_n = sz, heap_n = None\<rparr>"
    let ?ns5 = "(nodes st)(u \<mapsto> ?U, pv \<mapsto> x\<lparr>next_n := Some u\<rparr>,
                  fr \<mapsto> f\<lparr>size_n := sub_size_t (size_n f) sz,
                           ptr := add_size_t (ptr f) sz, previous := Some u\<rparr>)"
    from run heap_pop_split_split[OF hh ch f False rmal u0 n1 u_fr pvf x pv_fr pv_u]
    have eq: "(case heapify_down ?ns5 h (heap_idx f) of
                 None \<Rightarrow> None
               | Some (ns6, h1) \<Rightarrow>
                   Some (Some u, st1\<lparr>nodes := ns6, heaps := (heaps st1)(hp \<mapsto> h1)\<rparr>))
              = Some (Some c, st')"
      by (simp only:)
    then obtain a where a: "heapify_down ?ns5 h (heap_idx f) = Some a"
      by (cases "heapify_down ?ns5 h (heap_idx f)") simp_all
    obtain ns6 h1 where a2: "a = (ns6, h1)" by (cases a)
    from a a2 have hd: "heapify_down ?ns5 h (heap_idx f) = Some (ns6, h1)" by simp
    from eq hd have c: "c = u"
      and st': "st' = st1\<lparr>nodes := ns6, heaps := (heaps st1)(hp \<mapsto> h1)\<rparr>"
      by auto
    have sb: "same_blocks ?ns5 ns6" by (rule heapify_down_same_blocks[OF hd])
    have "?ns5 u = Some ?U" using u_fr pv_u by simp
    from same_blocks_SomeD[OF sb this] obtain un' where
      un': "ns6 u = Some un'" "ptr un' = ptr f" "size_n un' = sz" by auto
    have "?ns5 pv = Some (x\<lparr>next_n := Some u\<rparr>)" using pv_fr by simp
    from same_blocks_SomeD[OF sb this] obtain x' where
      x': "ns6 pv = Some x'" "ptr x' = ptr x" "next_n x' = Some u" by auto
    have rest: "\<forall>r. r \<noteq> u \<and> r \<noteq> pv \<and> r \<noteq> fr \<longrightarrow> same_walk (nodes st) ns6 r"
    proof (intro allI impI)
      fix r assume "r \<noteq> u \<and> r \<noteq> pv \<and> r \<noteq> fr"
      then have "?ns5 r = nodes st r" by simp
      with same_blocks_same_walk[OF sb, of r] show "same_walk (nodes st) ns6 r"
        by (simp add: same_walk_def)
    qed
    from find_node_from_after_insert[OF old head_ne x x'(1,2,3) uniq xn un un'(1,2) rest]
    have look: "heap_find_node st' (ptr f) = Some (Some u)"
      by (simp add: heap_find_node_def st' st1 split: if_splits)
    have sf: "supply_fresh st'"
    proof -
      have "ns6 a = None" if "a \<in> set ps" for a
      proof -
        from that sup dist have "a \<noteq> u" by auto
        moreover from that sup unalloc have "nodes st a = None" by simp
        moreover from this f x have "a \<noteq> fr" "a \<noteq> pv" by auto
        ultimately have "?ns5 a = None" by simp
        from same_blocks_None[OF sb this] show ?thesis .
      qed
      with dist sup show ?thesis by (simp add: supply_fresh_def list_all_iff st' st1)
    qed
    have fr: "same_layout st st'" by (simp add: same_layout_def st' st1)
    have "nodes st' u = Some un'" using un'(1) by (simp add: st')
    with fr sf look un' lo hi c show ?thesis
      by (simp add: carved_def)
  qed
qed

lemma mmap_tmpfile_keeps_blocks:
  assumes run: "mmap_tmpfile st p sz = Some (ret, st')" and ret: "0 \<le> ret"
    and fresh: "supply_fresh st"
  shows "nodes st' = nodes st \<and> same_layout st st'"
proof -
  from run obtain len where len: "template_len st = Some len"
    by (cases "template_len st") (simp_all add: mmap_tmpfile_def)
  from run len obtain u st1 where rmal: "real_malloc st (add_size_t len 1) = Some (u, st1)"
    by (cases "real_malloc st (add_size_t len 1)") (auto simp: mmap_tmpfile_def)
  have u0: "u \<noteq> 0"
  proof
    assume "u = 0"
    with run len rmal ret show False by (simp add: mmap_tmpfile_def)
  qed
  from real_malloc_takes[OF rmal u0] obtain ps where
    sup: "real_supply st = u # ps"
    and st1: "st1 = st\<lparr>real_supply := ps, trace := trace st @ [Real_malloc (add_size_t len 1) u]\<rparr>"
    by blast
  from fresh sup have "nodes st u = None" by (simp add: supply_fresh_def)
  then have idem: "(nodes st)(u := None) = nodes st" by (simp add: fun_upd_idem_iff)
  from run len rmal u0 ret st1 idem show ?thesis
    by (auto simp: mmap_tmpfile_def same_layout_def take_tmpfile_outcome_def real_free_def
          emit_def Let_def
        split: tmpfile_outcome.splits list.splits if_splits prod.splits)
qed

lemma free_block_ok_used [simp]:
  "free_block_ok (st\<lparr>used_fries := v\<rparr>) = free_block_ok st"
  "free_block_ok (st\<lparr>used_bigmaacs := v\<rparr>) = free_block_ok st"
  by (rule ext, simp add: free_block_ok_def heap_find_node_def cong: option.case_cong)+

lemma arena_ok_used [simp]:
  "arena_ok (st\<lparr>used_fries := v\<rparr>) head = arena_ok st head"
  "arena_ok (st\<lparr>used_bigmaacs := v\<rparr>) head = arena_ok st head"
  by (simp_all add: arena_ok_def head_heap_def cong: option.case_cong prod.case_cong)

lemma supply_fresh_used [simp]:
  "supply_fresh (st\<lparr>used_fries := v\<rparr>) = supply_fresh st"
  "supply_fresh (st\<lparr>used_bigmaacs := v\<rparr>) = supply_fresh st"
  by (simp_all add: supply_fresh_def)

lemma fry_chunk_block:
  assumes run: "fry_chunk st B = Some (p, st')" and p: "p \<noteq> 0"
    and ok: "arena_ok st (head_fries st)" and fresh: "supply_fresh st"
  shows "same_layout st st'
         \<and> (\<exists>c blk. nodes st' c = Some blk \<and> size_n blk = B \<and> ptr blk = p
               \<and> base_fries st \<le> p \<and> p < end_bigmaac st
               \<and> heap_find_node st' p = Some (Some c))"
proof -
  let ?st0 = "st\<lparr>used_fries := add_size_t (used_fries st) B\<rparr>"
  from run obtain a where a: "heap_pop_split ?st0 (head_fries st) B = Some a"
    by (cases "heap_pop_split ?st0 (head_fries st) B") (simp_all add: fry_chunk_def)
  obtain res st1 where a2: "a = (res, st1)" by (cases a)
  from run a a2 p obtain c where res: "res = Some c"
    by (cases res) (simp_all add: fry_chunk_def)
  from a a2 res have hps: "heap_pop_split ?st0 (head_fries st) B = Some (Some c, st1)" by simp
  from run hps obtain cn where cn: "nodes st1 c = Some cn"
    by (cases "nodes st1 c") (simp_all add: fry_chunk_def)
  from run hps cn have e: "p = ptr cn" "st' = st1" by (simp_all add: fry_chunk_def)
  from heap_pop_split_carved[OF hps] ok fresh have "carved ?st0 st1 c B" by simp
  with cn e show ?thesis by (auto simp: carved_def same_layout_def)
qed

lemma bigmaac_chunk_block:
  assumes run: "bigmaac_chunk st B = Some (p, st')" and p: "p \<noteq> 0"
    and ok: "arena_ok st (head_bigmaacs st)" and fresh: "supply_fresh st"
  shows "same_layout st st'
         \<and> (\<exists>c blk. nodes st' c = Some blk \<and> size_n blk = B \<and> ptr blk = p
               \<and> base_fries st \<le> p \<and> p < end_bigmaac st
               \<and> heap_find_node st' p = Some (Some c))"
proof -
  let ?st0 = "st\<lparr>used_bigmaacs := add_size_t (used_bigmaacs st) B\<rparr>"
  from run obtain a where a: "heap_pop_split ?st0 (head_bigmaacs st) B = Some a"
    by (cases "heap_pop_split ?st0 (head_bigmaacs st) B") (simp_all add: bigmaac_chunk_def)
  obtain res st1 where a2: "a = (res, st1)" by (cases a)
  from run a a2 p obtain c where res: "res = Some c"
    by (cases res) (simp_all add: bigmaac_chunk_def)
  from a a2 res have hps: "heap_pop_split ?st0 (head_bigmaacs st) B = Some (Some c, st1)"
    by simp
  from run hps obtain cn where cn: "nodes st1 c = Some cn"
    by (cases "nodes st1 c") (simp_all add: bigmaac_chunk_def)
  from run hps cn obtain b where b: "mmap_tmpfile st1 (ptr cn) B = Some b"
    by (cases "mmap_tmpfile st1 (ptr cn) B") (simp_all add: bigmaac_chunk_def)
  obtain ret st2 where b2: "b = (ret, st2)" by (cases b)
  from b b2 have mm: "mmap_tmpfile st1 (ptr cn) B = Some (ret, st2)" by simp
  have ret: "0 \<le> ret"
  proof (rule ccontr)
    assume "\<not> 0 \<le> ret"
    with run hps cn mm p show False by (simp add: bigmaac_chunk_def)
  qed
  from heap_pop_split_carved[OF hps] ok fresh have cv: "carved ?st0 st1 c B" by simp
  then have sf: "supply_fresh st1" by (simp add: carved_def)
  from mmap_tmpfile_keeps_blocks[OF mm ret sf] have
    k: "nodes st2 = nodes st1" "same_layout st1 st2" by simp_all
  from run hps cn mm ret k(1) have e: "p = ptr cn" "st' = st2"
    by (simp_all add: bigmaac_chunk_def)
  from k have "heap_find_node st2 p = heap_find_node st1 p"
    by (simp add: heap_find_node_def same_layout_def)
  with cv cn e k show ?thesis by (auto simp: carved_def same_layout_def)
qed

subsection \<open>The mapped memory\<close>

text \<open>
  \<open>accessible\<close> is exact: it holds when every byte of the range lies in a mapping; and
  \<open>cut_range\<close> takes exactly the bytes of the range cut out of the mappings.
\<close>

lemma find_SomeD:
  "find P xs = Some z \<Longrightarrow> z \<in> set xs \<and> P z"
  by (induction xs) (auto split: if_splits)

lemma covered_mapped:
  assumes "covered ms k lo hi" "lo \<le> a" "a < hi"
  shows "\<exists>m \<in> set ms. fst m \<le> a \<and> a < snd m"
  using assms
proof (induction k arbitrary: lo)
  case 0
  then show ?case by simp
next
  case (Suc k)
  from Suc.prems obtain x y where f: "find (\<lambda>(a, b). a \<le> lo \<and> lo < b) ms = Some (x, y)"
    and c: "covered ms k y hi"
    by (auto split: option.splits)
  from find_SomeD[OF f] have m: "(x, y) \<in> set ms" and r: "x \<le> lo" "lo < y"
    by simp_all
  show ?case
  proof (cases "a < y")
    case True
    with r Suc.prems(2) have "fst (x, y) \<le> a \<and> a < snd (x, y)" by simp
    with m show ?thesis by (rule bexI[rotated])
  next
    case False
    then have "y \<le> a" by simp
    from Suc.IH[OF c this Suc.prems(3)] show ?thesis .
  qed
qed

lemma length_filter_stricter:
  assumes "\<And>z. Q z \<Longrightarrow> P z" "z \<in> set xs" "P z" "\<not> Q z"
  shows "length (filter Q xs) < length (filter P xs)"
  using assms(2)
proof (induction xs)
  case Nil
  then show ?case by simp
next
  case (Cons w xs)
  have le: "length (filter Q xs) \<le> length (filter P xs)"
  proof (induction xs)
    case Nil
    show ?case by simp
  next
    case (Cons v vs)
    with assms(1)[of v] show ?case by auto
  qed
  show ?case
  proof (cases "z = w")
    case True
    with assms(3,4) le show ?thesis by simp
  next
    case False
    with Cons have "length (filter Q xs) < length (filter P xs)" by simp
    with assms(1)[of w] show ?thesis by auto
  qed
qed

lemma mapped_covered:
  assumes "\<forall>a. lo \<le> a \<and> a < hi \<longrightarrow> (\<exists>m \<in> set ms. fst m \<le> a \<and> a < snd m)"
    and "length (filter (\<lambda>m. lo < snd m) ms) \<le> k"
  shows "covered ms k lo hi"
  using assms
proof (induction k arbitrary: lo)
  case 0
  show ?case
  proof (cases "hi \<le> lo")
    case True
    then show ?thesis by simp
  next
    case False
    then have "lo \<le> lo \<and> lo < hi" by simp
    with "0.prems"(1) obtain m where "m \<in> set ms" "lo < snd m" by blast
    then have "m \<in> set (filter (\<lambda>m. lo < snd m) ms)" by simp
    with "0.prems"(2) show ?thesis by simp
  qed
next
  case (Suc k)
  show ?case
  proof (cases "hi \<le> lo")
    case True
    then show ?thesis by simp
  next
    case False
    then have "lo \<le> lo \<and> lo < hi" by simp
    with Suc.prems(1) obtain m0 where m0: "m0 \<in> set ms" "fst m0 \<le> lo" "lo < snd m0" by blast
    have "find (\<lambda>(a, b). a \<le> lo \<and> lo < b) ms \<noteq> None"
    proof
      assume "find (\<lambda>(a, b). a \<le> lo \<and> lo < b) ms = None"
      then have "\<forall>z \<in> set ms. \<not> (fst z \<le> lo \<and> lo < snd z)"
        by (simp only: find_None_iff case_prod_beta) blast
      with m0 show False by blast
    qed
    then obtain z where f: "find (\<lambda>(a, b). a \<le> lo \<and> lo < b) ms = Some z" by blast
    obtain x y where z: "z = (x, y)" by (cases z)
    from find_SomeD[OF f] z have m: "(x, y) \<in> set ms" and r: "x \<le> lo" "lo < y"
      by simp_all
    have "length (filter (\<lambda>m. y < snd m) ms) < length (filter (\<lambda>m. lo < snd m) ms)"
    proof (rule length_filter_stricter[of _ _ "(x, y)"])
      show "lo < snd z" if "y < snd z" for z using that r(2) by simp
      show "(x, y) \<in> set ms" by (rule m)
      show "lo < snd (x, y)" using r(2) by simp
      show "\<not> y < snd (x, y)" by simp
    qed
    with Suc.prems(2) have l: "length (filter (\<lambda>m. y < snd m) ms) \<le> k" by simp
    have "\<forall>a. y \<le> a \<and> a < hi \<longrightarrow> (\<exists>m \<in> set ms. fst m \<le> a \<and> a < snd m)"
    proof (intro allI impI)
      fix a assume "y \<le> a \<and> a < hi"
      with r(2) have "lo \<le> a \<and> a < hi" by simp
      with Suc.prems(1) show "\<exists>m \<in> set ms. fst m \<le> a \<and> a < snd m" by blast
    qed
    from Suc.IH[OF this l] f z show ?thesis by simp
  qed
qed

lemma accessible_iff:
  "accessible st p n
     = (\<forall>a. p \<le> a \<and> a < p + n \<longrightarrow> (\<exists>m \<in> set (mapped st). fst m \<le> a \<and> a < snd m))"
proof
  assume "accessible st p n"
  then have c: "covered (mapped st) (length (mapped st)) p (p + n)" by (simp add: accessible_def)
  show "\<forall>a. p \<le> a \<and> a < p + n \<longrightarrow> (\<exists>m \<in> set (mapped st). fst m \<le> a \<and> a < snd m)"
  proof (intro allI impI)
    fix a assume "p \<le> a \<and> a < p + n"
    then have "p \<le> a" "a < p + n" by simp_all
    from covered_mapped[OF c this] show "\<exists>m \<in> set (mapped st). fst m \<le> a \<and> a < snd m" .
  qed
next
  assume a: "\<forall>a. p \<le> a \<and> a < p + n \<longrightarrow> (\<exists>m \<in> set (mapped st). fst m \<le> a \<and> a < snd m)"
  have "length (filter (\<lambda>m. p < snd m) (mapped st)) \<le> length (mapped st)" by simp
  from mapped_covered[OF a this] show "accessible st p n" by (simp add: accessible_def)
qed

lemma cut_range_iff:
  "(\<exists>m \<in> set (cut_range lo hi ms). fst m \<le> a \<and> a < snd m)
     = ((\<exists>m \<in> set ms. fst m \<le> a \<and> a < snd m) \<and> \<not> (lo \<le> a \<and> a < hi))"
proof (induction ms)
  case Nil
  show ?case by (simp add: cut_range_def)
next
  case (Cons m ms)
  obtain x y where m: "m = (x, y)" by (cases m)
  have c: "cut_range lo hi (m # ms)
             = filter (\<lambda>(x, y). x < y) [(x, min y lo), (max x hi, y)] @ cut_range lo hi ms"
    by (simp add: cut_range_def m)
  have one: "(\<exists>m \<in> set (filter (\<lambda>(x, y). x < y) [(x, min y lo), (max x hi, y)]).
           fst m \<le> a \<and> a < snd m)
          = ((x \<le> a \<and> a < y) \<and> \<not> (lo \<le> a \<and> a < hi))"
    by (simp add: min_def max_def) linarith
  have "(\<exists>m \<in> set (cut_range lo hi (m # ms)). fst m \<le> a \<and> a < snd m)
        = ((\<exists>m \<in> set (filter (\<lambda>(x, y). x < y) [(x, min y lo), (max x hi, y)]).
           fst m \<le> a \<and> a < snd m) \<or> (\<exists>m \<in> set (cut_range lo hi ms). fst m \<le> a \<and> a < snd m))"
    by (simp only: c set_append bex_Un)
  also have "\<dots> = (((x \<le> a \<and> a < y) \<and> \<not> (lo \<le> a \<and> a < hi))
                   \<or> ((\<exists>m \<in> set ms. fst m \<le> a \<and> a < snd m) \<and> \<not> (lo \<le> a \<and> a < hi)))"
    by (simp only: one Cons)
  also have "\<dots> = ((\<exists>m \<in> set (m # ms). fst m \<le> a \<and> a < snd m) \<and> \<not> (lo \<le> a \<and> a < hi))"
    by (simp add: m) blast
  finally show ?case .
qed

text \<open>
  With a fry arena of 16384 bytes, \<open>calloc(3, 8192)\<close> carves a fry of 8192 bytes at the
  base of the arena and zeroes 24576 bytes from there on: the \<open>memset\<close> leaves the
  mapped fry arena, and the process dies.
\<close>

lemma calloc_zeroes_past_the_mapped_arena:
  "map_option fst (create_chunk small_process 8192) = Some 1073741824
   \<and> mapped small_process = [(1073741824, 1073758208)]
   \<and> calloc small_process 3 8192 = None"
  by (simp add: small_process_def model_defs)

subsection \<open>Initialisation ends in \<open>LOADED\<close> or in \<open>LIBRARY_FAIL\<close>\<close>













subsection \<open>A call of \<open>calloc\<close> that is passed on leaves a mark\<close>

text \<open>
  The allocations keep the load state and only add to the trace. So a \<open>calloc\<close> that
  returns \<open>NULL\<close> in the state it was called in has called nothing and written nothing:
  this happens in the two loading states only.
\<close>

lemma later_refl: "later st st"
  by (simp add: later_def)











subsection \<open>Routing by size class\<close>

text \<open>
  Once the library is fully loaded, \<open>malloc\<close> passes a request of at most \<open>MIN_FRY\<close>
  bytes to the real allocator; it carves a request above \<open>MIN_FRY\<close> and of at most
  \<open>MIN_BIGMAAC\<close> bytes from the fry arena, rounded up to the fry grain, and a request above
  \<open>MIN_BIGMAAC\<close> from the bigmaac arena, rounded up to the page size, whenever the rounded
  size is a \<open>size_t\<close>. It reports a failed carving with \<open>ENOMEM\<close>.
\<close>

lemma malloc_routes:
  assumes "fully_loaded st" and "sz < SIZE_T_RANGE"
  shows "(sz \<le> min_size_fry st \<longrightarrow> malloc st sz = real_malloc st sz)
       \<and> (min_size_fry st < sz \<and> sz \<le> min_size_bigmaac st \<longrightarrow>
            (\<exists>r. rounded_up sz (fry_size_multiple st) r \<and>
               (r < SIZE_T_RANGE \<longrightarrow>
                malloc st sz =
                  (case fry_chunk st r of
                     None \<Rightarrow> None
                   | Some (p, st') \<Rightarrow> if p = 0 then Some (0, OOM st') else Some (p, st')))))
       \<and> (min_size_bigmaac st < sz \<longrightarrow>
            (\<exists>r. rounded_up sz (page_size st) r \<and>
               (r < SIZE_T_RANGE \<longrightarrow>
                malloc st sz =
                  (case bigmaac_chunk st r of
                     None \<Rightarrow> None
                   | Some (p, st') \<Rightarrow> if p = 0 then Some (0, OOM st') else Some (p, st')))))"
proof (intro conjI impI)
  from assms(1) have ld: "load_state st = LOADED" by (simp add: fully_loaded_def)
  then have init: "init_if_not_loaded st = Some st" by (simp add: init_if_not_loaded_def)
  show "malloc st sz = real_malloc st sz" if "sz \<le> min_size_fry st"
    using that ld init by (simp add: malloc_def)
  show "\<exists>r. rounded_up sz (fry_size_multiple st) r \<and>
               (r < SIZE_T_RANGE \<longrightarrow>
                malloc st sz =
                  (case fry_chunk st r of
                     None \<Rightarrow> None
                   | Some (p, st') \<Rightarrow> if p = 0 then Some (0, OOM st') else Some (p, st')))"
    if c: "min_size_fry st < sz \<and> sz \<le> min_size_bigmaac st"
  proof -
    from assms have "0 < fry_size_multiple st" "fry_size_multiple st < SIZE_T_RANGE"
      "head_fries st \<noteq> head_bigmaacs st"
      by (simp_all add: fully_loaded_def)
    from SIZE_TO_MULTIPLE_rounds_up[OF this(1,2) assms(2)] obtain r where
      r: "rounded_up sz (fry_size_multiple st) r"
         "SIZE_TO_MULTIPLE sz (fry_size_multiple st) = Some (r mod SIZE_T_RANGE)" by blast
    have "malloc st sz =
                 (case fry_chunk st r of
                    None \<Rightarrow> None
                  | Some (p, st') \<Rightarrow> if p = 0 then Some (0, OOM st') else Some (p, st'))"
      if lt: "r < SIZE_T_RANGE"
    proof -
      from lt r(2) have "SIZE_TO_MULTIPLE sz (fry_size_multiple st) = Some r" by simp
      with c have "create_chunk st sz = fry_chunk st r"
        by (intro create_chunk_fry \<open>head_fries st \<noteq> head_bigmaacs st\<close>) simp_all
      with c ld init show ?thesis by (auto simp: malloc_def split: option.splits)
    qed
    with r(1) show ?thesis by blast
  qed
  show "\<exists>r. rounded_up sz (page_size st) r \<and>
               (r < SIZE_T_RANGE \<longrightarrow>
                malloc st sz =
                  (case bigmaac_chunk st r of
                     None \<Rightarrow> None
                   | Some (p, st') \<Rightarrow> if p = 0 then Some (0, OOM st') else Some (p, st')))"
    if c: "min_size_bigmaac st < sz"
  proof -
    from assms have "0 < page_size st" "page_size st < SIZE_T_RANGE"
      "min_size_fry st \<le> min_size_bigmaac st"
      by (simp_all add: fully_loaded_def)
    from SIZE_TO_MULTIPLE_rounds_up[OF this(1,2) assms(2)] obtain r where
      r: "rounded_up sz (page_size st) r"
         "SIZE_TO_MULTIPLE sz (page_size st) = Some (r mod SIZE_T_RANGE)" by blast
    have "malloc st sz =
                 (case bigmaac_chunk st r of
                    None \<Rightarrow> None
                  | Some (p, st') \<Rightarrow> if p = 0 then Some (0, OOM st') else Some (p, st'))"
      if lt: "r < SIZE_T_RANGE"
    proof -
      from lt r(2) have "SIZE_TO_MULTIPLE sz (page_size st) = Some r" by simp
      with c have "create_chunk st sz = bigmaac_chunk st r"
        by (intro create_chunk_bigmaac) simp_all
      with c ld init \<open>min_size_fry st \<le> min_size_bigmaac st\<close> show ?thesis
        by (auto simp: malloc_def split: option.splits)
    qed
    with r(1) show ?thesis by blast
  qed
qed

subsection \<open>A block that is large enough\<close>

text \<open>
  When the lookup of \<open>realloc\<close> finds a block of at least the positive size asked for,
  \<open>realloc\<close> returns the pointer and changes nothing. \<open>realloc(p, 0)\<close> is \<open>malloc(0)\<close>:
  in the example process, for \<open>p = malloc(8192)\<close>, it returns the address 9000 from the
  real allocator and leaves the block of \<open>p\<close> in use. And in an arena whose free blocks
  are well placed, the lookup finds the block \<open>malloc\<close> has just carved, whose size is the
  rounded size of the request.
\<close>

lemma realloc_large_enough:
  assumes "load_state st = LOADED" and "p \<noteq> 0"
    and "base_fries st \<le> p" and "p < end_bigmaac st"
    and "heap_find_node st p = Some (Some n)" and "nodes st n = Some blk"
    and "0 < sz" and "sz \<le> size_n blk"
  shows "realloc st p sz = Some (p, st)"
  using assms by (simp add: realloc_def init_if_not_loaded_def)

lemma realloc_to_zero_is_malloc:
  "(do {
      (p, st) \<leftarrow> malloc (process_start 16777216 268435456) 8192;
      blk \<leftarrow> block_at st p;
      (q, st') \<leftarrow> realloc st p 0;
      blk' \<leftarrow> block_at st' p;
      Some (p, size_n blk, q, in_use blk', last (trace st'))
    }) = Some (1073741824, 8192, 9000, IN_USE, Real_malloc 0 9000)"
  by (simp add: model_defs)

lemma malloc_then_realloc:
  assumes loaded: "fully_loaded st"
    and fries: "arena_ok st (head_fries st)" and bigmaacs: "arena_ok st (head_bigmaacs st)"
    and fresh: "supply_fresh st"
    and managed: "min_size_fry st < requested"
    and run: "malloc st requested = Some (p, st')" and p: "p \<noteq> 0"
    and B: "SIZE_TO_MULTIPLE requested
              (if requested \<le> min_size_bigmaac st then fry_size_multiple st else page_size st)
            = Some B"
    and sz: "0 < sz" "sz \<le> B"
  shows "realloc st' p sz = Some (p, st')"
proof -
  from loaded have ld: "load_state st = LOADED" and ne: "head_fries st \<noteq> head_bigmaacs st"
    by (simp_all add: fully_loaded_def)
  from run ld managed obtain a where a: "create_chunk st requested = Some a"
    by (cases "create_chunk st requested") (simp_all add: malloc_def init_if_not_loaded_def)
  obtain q st1 where a2: "a = (q, st1)" by (cases a)
  from run ld managed a a2 p have cc: "create_chunk st requested = Some (p, st')"
    by (auto simp: malloc_def init_if_not_loaded_def split: if_splits)
  have blk: "same_layout st st'
         \<and> (\<exists>c blk. nodes st' c = Some blk \<and> size_n blk = B \<and> ptr blk = p
               \<and> base_fries st \<le> p \<and> p < end_bigmaac st
               \<and> heap_find_node st' p = Some (Some c))"
  proof (cases "requested \<le> min_size_bigmaac st")
    case True
    with B have "SIZE_TO_MULTIPLE requested (fry_size_multiple st) = Some B" by simp
    from create_chunk_fry[OF ne True this] cc have "fry_chunk st B = Some (p, st')" by simp
    from fry_chunk_block[OF this p fries fresh] show ?thesis .
  next
    case False
    with B have r: "SIZE_TO_MULTIPLE requested (page_size st) = Some B" by simp
    from False have "min_size_bigmaac st < requested" by simp
    from create_chunk_bigmaac[OF this r] cc have "bigmaac_chunk st B = Some (p, st')" by simp
    from bigmaac_chunk_block[OF this p bigmaacs fresh] show ?thesis .
  qed
  then obtain c blk where
    l: "same_layout st st'" and c: "nodes st' c = Some blk" and s: "size_n blk = B"
    and lo: "base_fries st \<le> p" and hi: "p < end_bigmaac st"
    and look: "heap_find_node st' p = Some (Some c)"
    by blast
  from l ld lo hi have "load_state st' = LOADED" "base_fries st' \<le> p" "p < end_bigmaac st'"
    by (simp_all add: same_layout_def)
  from realloc_large_enough[OF this(1) p this(2,3) look c sz(1)] sz(2) s show ?thesis by simp
qed

text \<open>
  In the example process \<open>p = malloc(5000)\<close> is a fry of the 5024 bytes to which 5000
  is rounded by the fry grain of 32, and \<open>realloc(p, 5020)\<close> returns \<open>p\<close> and leaves the
  state as it was.
\<close>

lemma malloc_then_realloc_example:
  "fully_loaded loaded_process
   \<and> arena_ok loaded_process (head_fries loaded_process)
   \<and> arena_ok loaded_process (head_bigmaacs loaded_process)
   \<and> supply_fresh loaded_process
   \<and> min_size_fry loaded_process < 5000
   \<and> malloc loaded_process 5000 = Some (1073741824, process_with_fry)
   \<and> SIZE_TO_MULTIPLE 5000
        (if 5000 \<le> min_size_bigmaac loaded_process then fry_size_multiple loaded_process
         else page_size loaded_process) = Some 5024
   \<and> (5000 :: nat) < 5020
   \<and> realloc process_with_fry 1073741824 5020 = Some (1073741824, process_with_fry)"
proof -
  have l: "fully_loaded loaded_process"
    by (simp add: fully_loaded_def loaded_process_def model_defs)
  have f: "arena_ok loaded_process (head_fries loaded_process)"
    by (simp add: arena_ok_def free_block_ok_def loaded_process_def model_defs
          replicate_numeral_eval)
  have b: "arena_ok loaded_process (head_bigmaacs loaded_process)"
    by (simp add: arena_ok_def free_block_ok_def loaded_process_def model_defs
          replicate_numeral_eval)
  have s: "supply_fresh loaded_process"
    by (simp add: supply_fresh_def loaded_process_def model_defs)
  have g: "min_size_fry loaded_process < 5000"
    by (simp add: loaded_process_def model_defs)
  have m: "malloc loaded_process 5000 = Some (1073741824, process_with_fry)"
    by (simp add: process_with_fry_def loaded_process_def model_defs)
  have p: "(1073741824 :: nat) \<noteq> 0" by simp
  have r: "SIZE_TO_MULTIPLE 5000
             (if 5000 \<le> min_size_bigmaac loaded_process then fry_size_multiple loaded_process
              else page_size loaded_process) = Some 5024"
    by (simp add: loaded_process_def model_defs)
  have sz: "(0 :: nat) < 5020" "(5020 :: nat) \<le> 5024" by simp_all
  from malloc_then_realloc[OF l f b s g m p r sz] l f b s g m r show ?thesis by simp
qed

section \<open>The claims\<close>

subsection \<open>C1: calloc\<close>

text \<open>
  Claim C1 asks that \<open>calloc(count, size)\<close> of a loaded library returns \<open>NULL\<close> or
  a pointer to at least \<open>count * size\<close> zeroed bytes. The source classifies and carves by
  \<open>size\<close> alone. In the example process \<open>calloc(2, 8192)\<close> returns the start of a
  block of 8192 bytes in the fry arena and then zeroes 16384 bytes from there, and
  \<open>calloc(2, 1048576)\<close> returns a block of 1048576 bytes of the bigmaac arena over which
  a file of 1048576 bytes is mapped: in both the block is half of \<open>count * size\<close>.
\<close>

theorem calloc_block_covers_size_only:
  "run_calloc 2 8192 = Some (1073741824, 8192, IN_USE, 8192, 0, Memset 1073741824 16384)
   \<and> run_calloc 2 1048576
        = Some (1090519040, 1048576, IN_USE, 0, 1048576, Attach 1090519040 1048576)"
  by (simp add: run_calloc_def model_defs)

subsection \<open>C2: exhaustion\<close>

text \<open>
  Claim C2 asks that a \<open>malloc\<close> that finds no free block large enough returns
  \<open>NULL\<close>, sets \<open>ENOMEM\<close> and leaves the arena as it was, the used-bytes counter
  included. With a bigmaac arena of 1 MiB, \<open>malloc(2097152)\<close> returns \<open>NULL\<close> with
  \<open>ENOMEM\<close> and leaves the block records and the heaps alone, but \<open>used_bigmaacs\<close>
  has grown from 0 to 2097152: \<open>create_chunk\<close> adds the size before it looks for a block
  and never takes it back.
\<close>

theorem malloc_oom_counts_the_request:
  "run_malloc_oom = Some (0, True, True, True, 0, 2097152)"
  by (simp add: run_malloc_oom_def model_defs)

subsection \<open>C3: double free\<close>

text \<open>
  Claim C3 asks that a second \<open>free(p)\<close> is logged and ignored. In the example process
  the block of \<open>p = malloc(8192)\<close> is merged on the first \<open>free\<close> into the free block
  behind it, which then starts at \<open>p\<close>. The second \<open>free(p)\<close> finds that free block:
  \<open>heap_find_node\<close> does not look at \<open>in_use\<close>. It subtracts the 16 MiB of the block
  from \<open>used_fries\<close>, which wraps around below zero, and inserts the block into the heap
  a second time. Nothing is written to the standard error stream: the only new event is the
  reallocation of the heap array.
\<close>

theorem second_free_changes_the_arena:
  "run_double_free
     = Some (0, 1, [5048], 18446744073692774400, 2, [5048, 5048], [Real_realloc 7000 16 9000])"
  by (simp add: run_double_free_def model_defs)

subsection \<open>C4: routing by size class\<close>

text \<open>
  Claim C4 asks that \<open>malloc\<close> carves every request above \<open>MIN_BIGMAAC\<close> from the
  bigmaac arena with its size rounded up to a page boundary. It fails for the largest
  request. \<open>create_chunk\<close> rounds \<open>SIZE_MAX = 2 ^ 64 - 1\<close> up to \<open>2 ^ 64\<close>, which is \<open>0\<close>
  as a \<open>size_t\<close>, and \<open>heap_pop_split\<close> splits a block of 0 bytes off the free block at
  the base of the bigmaac arena. The kernel maps no file over 0 bytes, so \<open>malloc\<close>
  returns \<open>NULL\<close> with \<open>ENOMEM\<close>; the empty block stays in the list, in use, at the
  address of the block behind it, and \<open>used_bigmaacs\<close> is still 0.
\<close>

theorem malloc_of_size_max_carves_empty_block:
  "run_malloc_size_max = Some (Some 0, 0, True, True, 0, IN_USE, 0)"
  by (simp add: run_malloc_size_max_def refusing_process_def loaded_process_def model_defs)

subsection \<open>C5: the fragmentation heuristic\<close>

text \<open>
  Claim C5 says that the allocator never carves the root when a child fits. It does not
  hold when only the right child fits and is as large as the root. In a fry arena of 45152
  bytes, after \<open>a = malloc(16384); b = malloc(4128); c = malloc(4128); d = malloc(4128);
  free(c); free(a)\<close> the heap holds the rest of the arena (16384 bytes) at the root, the
  block of \<open>c\<close> (4128 bytes) as left child and the block of \<open>a\<close> (16384 bytes) as right
  child. For a request of 8192 bytes the right child fits, and the choice is the root.
\<close>

theorem root_chosen_although_right_child_fits:
  "(do {
      (a, st1) \<leftarrow> malloc (process_start 45152 268435456) 16384;
      (b, st2) \<leftarrow> malloc st1 4128;
      (c, st3) \<leftarrow> malloc st2 4128;
      (d, st4) \<leftarrow> malloc st3 4128;
      st5 \<leftarrow> free st4 c;
      st6 \<leftarrow> free st5 a;
      (hp, h) \<leftarrow> head_heap st6 (head_fries st6);
      chosen \<leftarrow> choose_free_node (nodes st6) h 8192;
      Some (used h, take (used h) (slots h),
            slot_size (nodes st6) h 0, slot_size (nodes st6) h 1, slot_size (nodes st6) h 2,
            chosen)
    }) = Some (3, [5048, 10000, 8000], Some 16384, Some 4128, Some 16384, Some 5048)"
  by (simp add: model_defs slot_size_def replicate_numeral_eval)

text \<open>
  Claim C5 as amended: on a heap whose occupied slots are valid, the block chosen for a
  request is the one in the slot that \<open>preferred_slot\<close> names from the sizes of the root
  and of its two children. No block is chosen when the heap is empty or the root does not
  fit. Otherwise the left child is chosen when it fits, unless the right child fits too and
  is strictly smaller, and then the right child is chosen; when the left child does not
  fit, the right child is chosen if it fits and is strictly smaller than the root, and the
  root is chosen if not.
\<close>

theorem choose_free_node_preference:
  assumes "heap_slots_valid ns h"
  shows "choose_free_node ns h sz =
           Some (map_option (\<lambda>i. slots h ! i)
                   (preferred_slot sz (slot_size ns h 0) (slot_size ns h 1) (slot_size ns h 2)))"
proof (cases "used h = 0")
  case True
  then show ?thesis
    by (simp add: choose_free_node_def preferred_slot_def slot_size_def fits_def)
next
  case False
  then have u0: "0 < used h" by simp
  from slot_size_valid[OF assms u0] obtain n0 where
    n0: "node_at h 0 = Some (slots h ! 0)" "ns (slots h ! 0) = Some n0"
        "slot_size ns h 0 = Some (size_n n0)" by auto
  show ?thesis
  proof (cases "size_n n0 < sz")
    case True
    with False n0 show ?thesis
      by (simp add: choose_free_node_def preferred_slot_def fits_def)
  next
    case root_fits: False
    show ?thesis
    proof (cases "1 < used h")
      case False
      then have "slot_size ns h 1 = None" "slot_size ns h 2 = None"
        by (simp_all add: slot_size_def)
      with False root_fits n0 u0 show ?thesis
        by (simp add: choose_free_node_def preferred_slot_def fits_def smaller_def)
    next
      case u1: True
      from slot_size_valid[OF assms u1] obtain n1 where
        n1: "node_at h 1 = Some (slots h ! 1)" "ns (slots h ! 1) = Some n1"
            "slot_size ns h 1 = Some (size_n n1)" by auto
      show ?thesis
      proof (cases "2 < used h")
        case False
        then have "slot_size ns h 2 = None" by (simp add: slot_size_def)
        with False root_fits n0 n1 u0 u1 show ?thesis
          by (simp add: choose_free_node_def preferred_slot_def fits_def smaller_def)
      next
        case u2: True
        from slot_size_valid[OF assms u2] obtain n2 where
          n2: "node_at h 2 = Some (slots h ! 2)" "ns (slots h ! 2) = Some n2"
              "slot_size ns h 2 = Some (size_n n2)" by auto
        from root_fits n0 n1 n2 u0 u1 u2 show ?thesis
          by (simp add: choose_free_node_def preferred_slot_def fits_def smaller_def)
      qed
    qed
  qed
qed

text \<open>
  The theorem of C5 on scenario S3 of the specification: with 1 MiB at the root and
  512 KiB and 768 KiB in its children, a request of 256 KiB is served from the 512 KiB
  child in slot 1.
\<close>

theorem choose_free_node_preference_witness:
  "heap_slots_valid three_blocks three_blocks_heap
   \<and> slot_size three_blocks three_blocks_heap 0 = Some 1048576
   \<and> slot_size three_blocks three_blocks_heap 1 = Some 524288
   \<and> slot_size three_blocks three_blocks_heap 2 = Some 786432
   \<and> preferred_slot 262144 (Some 1048576) (Some 524288) (Some 786432) = Some 1
   \<and> choose_free_node three_blocks three_blocks_heap 262144 = Some (Some 200)"
proof -
  have v: "heap_slots_valid three_blocks three_blocks_heap"
    by (simp add: heap_slots_valid_def three_blocks_def three_blocks_heap_def)
  have s: "slot_size three_blocks three_blocks_heap 0 = Some 1048576"
    "slot_size three_blocks three_blocks_heap 1 = Some 524288"
    "slot_size three_blocks three_blocks_heap 2 = Some 786432"
    by (simp_all add: slot_size_def node_at_def three_blocks_def three_blocks_heap_def)
  have p: "preferred_slot 262144 (Some 1048576) (Some 524288) (Some 786432) = Some 1"
    by (simp add: preferred_slot_def fits_def smaller_def)
  have sl: "slots three_blocks_heap ! 1 = 200"
    by (simp add: three_blocks_heap_def)
  from choose_free_node_preference[OF v, of 262144]
  have "choose_free_node three_blocks three_blocks_heap 262144 = Some (Some 200)"
    by (simp only: s p sl option.map)
  with v s p show ?thesis by simp
qed

subsection \<open>C6: the list invariants\<close>

text \<open>
  Claim C6 asks that every coalescing free keeps the address-ordered list a gapless,
  sorted cover of the arena. In a fry arena of 16384 bytes, after
  \<open>p = malloc(8192); q = malloc(8192); free(p)\<close> the list is the free block of \<open>p\<close>
  followed by the block of \<open>q\<close>, which is in use and the last of the list.
  \<open>free(q)\<close> adds the size of \<open>q\<close> to the block of \<open>p\<close> and then unlinks \<open>q\<close>
  with \<open>UNLINK\<close>, which writes through \<open>q->next\<close>, the null pointer: the call has no
  result.
\<close>

theorem free_of_last_block_after_free_neighbour_crashes:
  "run_free_last_block
     = Some (1073741824, 1073750016, Some FREE, Some IN_USE, Some None, None)"
  by (simp add: run_free_last_block_def model_defs)

subsection \<open>C7: the index bookkeeping\<close>

text \<open>
  Claim C7 asks that a block removed from the heap has its recorded index set to \<open>-1\<close>,
  also when it is removed from the last occupied slot. In a fry arena of 32768 bytes, after
  \<open>a = malloc(8192); b = malloc(8192); free(a)\<close> the heap holds the rest of the arena in
  slot 0 and the block of \<open>a\<close> in slot 1, the last one. \<open>malloc(8192)\<close> fits that block
  exactly and removes it: \<open>heap_remove_idx\<close> sets its index to \<open>-1\<close> and then, taking
  it for the block that moves up from the last slot, back to 1. The block is in use and
  outside the heap, and its recorded index is 1.
\<close>

theorem removed_last_slot_keeps_its_index:
  "run_exact_fit_in_last_slot = Some (True, IN_USE, 1, 1, [5048])"
  by (simp add: run_exact_fit_in_last_slot_def model_defs)

subsection \<open>C8: realloc of a block that is large enough\<close>

text \<open>
  Claim C8 asks that \<open>realloc(p, size)\<close> returns \<open>p\<close> whenever the block of \<open>p\<close> is
  large enough. It fails behind an empty block. After \<open>malloc(SIZE_MAX)\<close> has left its
  block of 0 bytes at the base of the bigmaac arena, \<open>q = malloc(1048576)\<close> is a block of
  1048576 bytes at the same address, and \<open>heap_find_node(q)\<close> finds the empty block first.
  \<open>realloc(q, 100)\<close> compares 100 with the 0 bytes of that block, takes 100 bytes from the
  real allocator, cannot release the empty block (the kernel remaps no 0 bytes) and
  returns \<open>NULL\<close>.
\<close>

theorem realloc_behind_empty_block_returns_null:
  "run_realloc_behind_empty_block 1048576 100
     = Some (1090519040, Some 1048576, 0, True, 1048576, IN_USE, 0)"
  by (simp add: run_realloc_behind_empty_block_def refusing_process_def loaded_process_def
        model_defs)

subsection \<open>C9: calloc while the library loads\<close>




subsection \<open>C10: realloc within the rounded size\<close>

text \<open>
  Claim C10 asks that \<open>realloc(p, s)\<close> returns \<open>p\<close> for every \<open>0 < s \<le> B\<close>, where \<open>B\<close>
  is the rounded size of the block of \<open>p\<close>, also when \<open>s\<close> is above the size requested.
  It fails behind an empty block. After \<open>malloc(SIZE_MAX)\<close> has left its block of 0 bytes
  at the base of the bigmaac arena, \<open>q = malloc(1048577)\<close> is a block of \<open>B = 1052672\<close>
  bytes at the same address, and \<open>heap_find_node(q)\<close> finds the empty block first.
  \<open>realloc(q, 1050000)\<close> compares 1050000 with the 0 bytes of that block, carves a new
  chunk, cannot release the empty block (the kernel remaps no 0 bytes) and returns
  \<open>NULL\<close>.
\<close>

theorem realloc_within_rounded_size_returns_null:
  "run_realloc_behind_empty_block 1048577 1050000
     = Some (1090519040, Some 1052672, 0, True, 1052672, IN_USE, 0)"
  by (simp add: run_realloc_behind_empty_block_def refusing_process_def loaded_process_def
        model_defs)

end
